theory Spec2Isabelle
  imports Complex_Main "HOL-Library.Multiset"
begin

section \<open>Python values\<close>

text \<open>
  The parser works on whatever \<^verbatim>\<open>_make_request\<close> hands back: \<^verbatim>\<open>None\<close>, the text of a
  page, or a decoded JSON document. All of them are Python values, so one datatype holds
  them: \<open>JNull\<close> is \<^verbatim>\<open>None\<close>, \<open>JStr\<close> is a \<^verbatim>\<open>str\<close> (a JSON string or the raw text of a
  response), \<open>JDict\<close> is a \<^verbatim>\<open>dict\<close> in insertion order. Numbers are the integers the
  catalogue uses for identifiers and page counts.
\<close>

datatype json =
    JNull
  | JBool bool
  | JInt int
  | JStr string
  | JList "json list"
  | JDict "(string \<times> json) list"

datatype exn = TypeError | KeyError | AttributeError | ValueError

text \<open>\<^verbatim>\<open>s.startswith(p)\<close> and \<^verbatim>\<open>sub in s\<close> on strings.\<close>

fun startswith :: "string \<Rightarrow> string \<Rightarrow> bool" where
  "startswith s [] = True"
| "startswith [] (p # ps) = False"
| "startswith (c # cs) (p # ps) = (c = p \<and> startswith cs ps)"

fun py_in_str :: "string \<Rightarrow> string \<Rightarrow> bool" where
  "py_in_str sub [] = (sub = [])"
| "py_in_str sub (c # cs) = (startswith (c # cs) sub \<or> py_in_str sub cs)"

text \<open>\<^verbatim>\<open>str.lower()\<close> on the ASCII letters a header value is made of.\<close>

definition lower_char :: "char \<Rightarrow> char" where
  "lower_char c =
     (let n = (of_char c :: nat) in if 65 \<le> n \<and> n \<le> 90 then char_of (n + 32) else c)"

definition lower :: "string \<Rightarrow> string" where
  "lower s = map lower_char s"

section \<open>The fetch executor: \<^verbatim>\<open>RozetkaAPI._make_request\<close>\<close>

text \<open>
  What one \<^verbatim>\<open>session.get\<close> can do: answer, or raise one of the exceptions the retry loop
  catches. \<open>json_body\<close> is the result of \<^verbatim>\<open>response.json()\<close>, \<open>None\<close> when it raises
  \<^verbatim>\<open>ValueError\<close>; \<open>content_type\<close> is the \<^verbatim>\<open>Content-Type\<close> header when there is one.
\<close>

record response =
  status_code :: int
  content_type :: "string option"
  resp_text :: string
  json_body :: "json option"

datatype http_outcome =
    Responded response
  | Timeout
  | ConnectionError
  | RequestException
  | OtherException

text \<open>
  The executor is observed through the events it produces, in order: the random
  pre-request delay, the GET, the penalty sleep after a 429 (its length in seconds) and
  the backoff sleep (the \<^verbatim>\<open>2 ** attempt\<close> part of its length; the jitter is random).
\<close>

datatype 'u http_event =
    Sleep_delay
  | Get 'u
  | Sleep_429 int
  | Sleep_backoff int

text \<open>
  The settings, \<^verbatim>\<open>RozenkaSettings\<close>; the two delays are random draws and have no field
  here. Field names carry the prefix \<open>cfg_\<close>.
\<close>

record rozenka_settings =
  cfg_max_workers :: int
  cfg_filters :: "string list option"
  cfg_sort_list :: "string list option"
  cfg_default_parse :: bool
  cfg_batch_size :: int
  cfg_save_data :: string
  cfg_max_retries :: int
  cfg_request_timeout :: int

text \<open>
  \<^verbatim>\<open>full_url = f"{url}?page={page}/" if page else url\<close>: the address is kept as the pair
  of the values the f-string joins; a page that is \<^verbatim>\<open>None\<close> or 0 is left out.
\<close>

definition full_url :: "'u \<Rightarrow> int option \<Rightarrow> 'u \<times> int option" where
  "full_url url page =
     (case page of
        None \<Rightarrow> (url, None)
      | Some p \<Rightarrow> if p \<noteq> 0 then (url, Some p) else (url, None))"

text \<open>
  One pass through the body of \<^verbatim>\<open>for attempt in range(max_retries)\<close>: either the function
  returns, or the loop goes on to the next attempt. The events of the pass come with it.
  The \<^verbatim>\<open>continue\<close> after a JSON decoding error skips the backoff sleep at the end of the
  body; every other retried outcome falls through to it.
\<close>

datatype step = Return json | Continue

definition attempt ::
  "int \<Rightarrow> 'u \<Rightarrow> nat \<Rightarrow> http_outcome \<Rightarrow> step \<times> 'u http_event list" where
  "attempt mr u a out =
     (let final = (int a = mr - 1);
          pre = [Sleep_delay, Get u];
          backoff = (if int a < mr - 1 then [Sleep_backoff (2 ^ a)] else []);
          transient = (if final then (Return JNull, pre) else (Continue, pre @ backoff))
      in case out of
           Responded r \<Rightarrow>
             if status_code r = 200 then
               (let ct = lower (case content_type r of None \<Rightarrow> [] | Some v \<Rightarrow> v) in
                if py_in_str ''application/json'' ct then
                  (case json_body r of
                     Some v \<Rightarrow> (Return v, pre)
                   | None \<Rightarrow> if final then (Return JNull, pre) else (Continue, pre))
                else if py_in_str ''text/html'' ct then (Return (JStr (resp_text r)), pre)
                else (Return (JStr (resp_text r)), pre))
             else if status_code r = 403 then transient
             else if status_code r = 429 then
               (let pen = [Sleep_429 (5 * (int a + 1))] in
                if final then (Return JNull, pre @ pen) else (Continue, pre @ pen @ backoff))
             else if status_code r = 404 then (Return JNull, pre)
             else if 500 \<le> status_code r \<and> status_code r < 600 then transient
             else transient
         | Timeout \<Rightarrow> transient
         | ConnectionError \<Rightarrow> transient
         | RequestException \<Rightarrow> transient
         | OtherException \<Rightarrow> transient)"

text \<open>
  The loop over the attempt indices. \<open>http a\<close> is the outcome of the GET of attempt \<open>a\<close>.
  Falling out of the loop (only when \<^verbatim>\<open>range(max_retries)\<close> is empty) returns \<^verbatim>\<open>None\<close>.
\<close>

fun retry_loop ::
  "int \<Rightarrow> 'u \<Rightarrow> (nat \<Rightarrow> http_outcome) \<Rightarrow> nat list \<Rightarrow> 'u http_event list
     \<Rightarrow> json \<times> 'u http_event list" where
  "retry_loop mr u http [] tr = (JNull, tr)"
| "retry_loop mr u http (a # as) tr =
     (case attempt mr u a (http a) of
        (Return v, ev) \<Rightarrow> (v, tr @ ev)
      | (Continue, ev) \<Rightarrow> retry_loop mr u http as (tr @ ev))"

definition make_request ::
  "rozenka_settings \<Rightarrow> (nat \<Rightarrow> http_outcome) \<Rightarrow> 'u \<Rightarrow> int option
     \<Rightarrow> json \<times> ('u \<times> int option) http_event list" where
  "make_request cfg http url page =
     retry_loop (cfg_max_retries cfg) (full_url url page) http [0..<nat (cfg_max_retries cfg)] []"

fun is_get :: "'u http_event \<Rightarrow> bool" where
  "is_get (Get u) = True"
| "is_get e = False"

definition gets :: "'u http_event list \<Rightarrow> nat" where
  "gets tr = length (filter is_get tr)"

text \<open>The events of attempt \<open>a\<close> when the answer is a 429.\<close>

definition events_429 :: "int \<Rightarrow> 'u \<Rightarrow> nat \<Rightarrow> 'u http_event list" where
  "events_429 mr u a =
     [Sleep_delay, Get u, Sleep_429 (5 * (int a + 1))]
       @ (if int a < mr - 1 then [Sleep_backoff (2 ^ a)] else [])"

definition is_status :: "int \<Rightarrow> http_outcome \<Rightarrow> bool" where
  "is_status s out = (case out of Responded r \<Rightarrow> status_code r = s | _ \<Rightarrow> False)"

definition json_decode_fails :: "http_outcome \<Rightarrow> bool" where
  "json_decode_fails out =
     (case out of
        Responded r \<Rightarrow>
          status_code r = 200
          \<and> py_in_str ''application/json''
               (lower (case content_type r of None \<Rightarrow> [] | Some v \<Rightarrow> v))
          \<and> json_body r = None
      | _ \<Rightarrow> False)"

section \<open>Python operations on payloads\<close>

text \<open>
  The parser reads a payload with \<^verbatim>\<open>in\<close>, subscripts, \<^verbatim>\<open>.get\<close>, \<^verbatim>\<open>.items\<close> and iteration.
  On a value of the wrong type each of them raises; the exception is the \<open>Inl\<close> branch.
  \<open>bnd\<close> runs the next step when the previous one did not raise.
\<close>

definition bnd :: "exn + 'a \<Rightarrow> ('a \<Rightarrow> exn + 'b) \<Rightarrow> exn + 'b" where
  "bnd m f = (case m of Inl e \<Rightarrow> Inl e | Inr x \<Rightarrow> f x)"

text \<open>\<^verbatim>\<open>bool(v)\<close>, as \<^verbatim>\<open>if v\<close> and \<^verbatim>\<open>not v\<close> use it.\<close>

fun truthy :: "json \<Rightarrow> bool" where
  "truthy JNull = False"
| "truthy (JBool b) = b"
| "truthy (JInt i) = (i \<noteq> 0)"
| "truthy (JStr s) = (s \<noteq> [])"
| "truthy (JList xs) = (xs \<noteq> [])"
| "truthy (JDict kvs) = (kvs \<noteq> [])"

text \<open>
  \<^verbatim>\<open>k in v\<close> for a string \<open>k\<close>: a key of a dict, a substring of a string, an element of
  a list; \<^verbatim>\<open>TypeError\<close> on \<^verbatim>\<open>None\<close>, a bool or a number.
\<close>

fun py_in :: "string \<Rightarrow> json \<Rightarrow> exn + bool" where
  "py_in k (JDict kvs) = Inr (k \<in> set (map fst kvs))"
| "py_in k (JStr s) = Inr (py_in_str k s)"
| "py_in k (JList xs) = Inr (JStr k \<in> set xs)"
| "py_in k JNull = Inl TypeError"
| "py_in k (JBool b) = Inl TypeError"
| "py_in k (JInt i) = Inl TypeError"

text \<open>
  \<^verbatim>\<open>v[k]\<close> for a string \<open>k\<close>: \<^verbatim>\<open>KeyError\<close> when a dict lacks the key, \<^verbatim>\<open>TypeError\<close> on
  everything that is not a dict (a string or a list wants an integer index).
\<close>

fun py_getitem :: "json \<Rightarrow> string \<Rightarrow> exn + json" where
  "py_getitem (JDict kvs) k = (case map_of kvs k of None \<Rightarrow> Inl KeyError | Some v \<Rightarrow> Inr v)"
| "py_getitem JNull k = Inl TypeError"
| "py_getitem (JBool b) k = Inl TypeError"
| "py_getitem (JInt i) k = Inl TypeError"
| "py_getitem (JStr s) k = Inl TypeError"
| "py_getitem (JList xs) k = Inl TypeError"

text \<open>\<^verbatim>\<open>v.get(k, d)\<close> and \<^verbatim>\<open>v.items()\<close>: only a dict has these methods.\<close>

fun py_get :: "json \<Rightarrow> string \<Rightarrow> json \<Rightarrow> exn + json" where
  "py_get (JDict kvs) k d = Inr (case map_of kvs k of None \<Rightarrow> d | Some v \<Rightarrow> v)"
| "py_get JNull k d = Inl AttributeError"
| "py_get (JBool b) k d = Inl AttributeError"
| "py_get (JInt i) k d = Inl AttributeError"
| "py_get (JStr s) k d = Inl AttributeError"
| "py_get (JList xs) k d = Inl AttributeError"

fun py_items :: "json \<Rightarrow> exn + (string \<times> json) list" where
  "py_items (JDict kvs) = Inr kvs"
| "py_items JNull = Inl AttributeError"
| "py_items (JBool b) = Inl AttributeError"
| "py_items (JInt i) = Inl AttributeError"
| "py_items (JStr s) = Inl AttributeError"
| "py_items (JList xs) = Inl AttributeError"

text \<open>
  \<^verbatim>\<open>for x in v\<close>: the elements of a list, the characters of a string, the keys of a
  dict; \<^verbatim>\<open>TypeError\<close> on \<^verbatim>\<open>None\<close>, a bool or a number.
\<close>

fun py_iter :: "json \<Rightarrow> exn + json list" where
  "py_iter (JList xs) = Inr xs"
| "py_iter (JStr s) = Inr (map (\<lambda>c. JStr [c]) s)"
| "py_iter (JDict kvs) = Inr (map (\<lambda>kv. JStr (fst kv)) kvs)"
| "py_iter JNull = Inl TypeError"
| "py_iter (JBool b) = Inl TypeError"
| "py_iter (JInt i) = Inl TypeError"

text \<open>
  \<^verbatim>\<open>s.update(v)\<close> on a set: every element of \<open>v\<close> is added; a list or a dict among them
  is unhashable and raises \<^verbatim>\<open>TypeError\<close>. As set elements \<^verbatim>\<open>True\<close> and \<^verbatim>\<open>False\<close> are the
  numbers 1 and 0.
\<close>

fun hashable :: "json \<Rightarrow> bool" where
  "hashable (JList xs) = False"
| "hashable (JDict kvs) = False"
| "hashable JNull = True"
| "hashable (JBool b) = True"
| "hashable (JInt i) = True"
| "hashable (JStr s) = True"

fun set_key :: "json \<Rightarrow> json" where
  "set_key (JBool b) = JInt (if b then 1 else 0)"
| "set_key JNull = JNull"
| "set_key (JInt i) = JInt i"
| "set_key (JStr s) = JStr s"
| "set_key (JList xs) = JList xs"
| "set_key (JDict kvs) = JDict kvs"

definition set_update :: "json set \<Rightarrow> json \<Rightarrow> exn + json set" where
  "set_update S v =
     bnd (py_iter v)
       (\<lambda>xs. if list_all hashable xs then Inr (S \<union> set (map set_key xs)) else Inl TypeError)"

text \<open>\<^verbatim>\<open>if xs\<close> on an optional list of the settings: neither \<^verbatim>\<open>None\<close> nor empty.\<close>

fun given :: "'a list option \<Rightarrow> bool" where
  "given None = False"
| "given (Some xs) = (xs \<noteq> [])"

fun items_of :: "'a list option \<Rightarrow> 'a list" where
  "items_of None = []"
| "items_of (Some xs) = xs"

section \<open>Requests and log lines as a trace\<close>

text \<open>
  A catalogue address is the tuple of values its f-string joins:
  \<^verbatim>\<open>...catalog?country=UA&lang=ua&filters=page:{page};producer:{brand}[;{filter_id}:{value}][;sort:{sort}]&id={category}\<close>.
\<close>

datatype url =
  Catalog_url (url_page: int) (url_producer: string) (url_facet: "(string \<times> json) option")
    (url_sort: "string option") (url_category: int)

text \<open>The lines \<^verbatim>\<open>get_product_ids_for_brand\<close> writes to the logger, without their numbers.\<close>

datatype log_msg =
    Brand_started
  | Filter_collected string
  | Default_parse_started
  | Default_parse_collected
  | Fallback_started
  | Fallback_collected
  | Brand_total

datatype event = Request url | Info log_msg

text \<open>
  The remote side: the payload \<^verbatim>\<open>_make_request\<close> returns for an address, which may depend
  on everything requested and logged before. A method of \<^verbatim>\<open>RozetkaAPI\<close> takes the trace so
  far and returns its result, or the exception it raised, with the trace extended.
\<close>

type_synonym net = "event list \<Rightarrow> url \<Rightarrow> json"

type_synonym 'a run = "event list \<Rightarrow> (exn + 'a) \<times> event list"

definition ret :: "'a \<Rightarrow> 'a run" where
  "ret v tr = (Inr v, tr)"

definition lift :: "exn + 'a \<Rightarrow> 'a run" where
  "lift m tr = (m, tr)"

definition andthen :: "'a run \<Rightarrow> ('a \<Rightarrow> 'b run) \<Rightarrow> 'b run" where
  "andthen m f tr = (case m tr of (Inl e, tr') \<Rightarrow> (Inl e, tr') | (Inr x, tr') \<Rightarrow> f x tr')"

definition fetch :: "net \<Rightarrow> url \<Rightarrow> json run" where
  "fetch net u tr = (Inr (net tr u), tr @ [Request u])"

definition info :: "log_msg \<Rightarrow> unit run" where
  "info m tr = (Inr (), tr @ [Info m])"

section \<open>The pagination walk\<close>

text \<open>
  \<^verbatim>\<open>response and 'data' in response and 'goods' in response['data']\<close>, the test every
  walker applies to a page; the first-page test is its negation.
\<close>

definition has_goods :: "json \<Rightarrow> exn + bool" where
  "has_goods r =
     (if \<not> truthy r then Inr False
      else bnd (py_in ''data'' r) (\<lambda>d.
             if \<not> d then Inr False
             else bnd (py_getitem r ''data'') (\<lambda>data. py_in ''goods'' data)))"

text \<open>
  \<^verbatim>\<open>goods_data = response['data']['goods']\<close>, then
  \<^verbatim>\<open>if 'ids' in goods_data: all_product_ids.update(goods_data['ids'])\<close>.
\<close>

definition goods_of :: "json \<Rightarrow> exn + json" where
  "goods_of r = bnd (py_getitem r ''data'') (\<lambda>data. py_getitem data ''goods'')"

definition add_ids :: "json set \<Rightarrow> json \<Rightarrow> exn + json set" where
  "add_ids S goods_data =
     bnd (py_in ''ids'' goods_data) (\<lambda>has.
       if has then bnd (py_getitem goods_data ''ids'') (set_update S) else Inr S)"

text \<open>
  The first page: \<open>None\<close> when the walker returns the empty set at once, otherwise the
  identifiers of the page and \<^verbatim>\<open>goods_data.get('total_pages', 1)\<close>.
\<close>

definition first_page :: "json \<Rightarrow> exn + (json set \<times> json) option" where
  "first_page r =
     bnd (has_goods r) (\<lambda>ok.
       if \<not> ok then Inr None
       else bnd (goods_of r) (\<lambda>goods_data.
              bnd (add_ids {} goods_data) (\<lambda>S.
                bnd (py_get goods_data ''total_pages'' (JInt 1)) (\<lambda>total_pages.
                  Inr (Some (S, total_pages))))))"

text \<open>
  \<^verbatim>\<open>range(2, total_pages + 1)\<close>: a bool is the number 0 or 1 and gives no page;
  \<^verbatim>\<open>None\<close>, a string, a list or a dict cannot be added to 1.
\<close>

fun page_range :: "json \<Rightarrow> exn + int list" where
  "page_range (JInt n) = Inr [2..n]"
| "page_range (JBool b) = Inr []"
| "page_range JNull = Inl TypeError"
| "page_range (JStr s) = Inl TypeError"
| "page_range (JList xs) = Inl TypeError"
| "page_range (JDict kvs) = Inl TypeError"

text \<open>A page after the first: its identifiers are added when it passes the test.\<close>

definition next_page :: "json set \<Rightarrow> json \<Rightarrow> exn + json set" where
  "next_page S r =
     bnd (has_goods r) (\<lambda>ok.
       if ok then bnd (goods_of r) (add_ids S) else Inr S)"

fun walk_pages :: "net \<Rightarrow> (int \<Rightarrow> url) \<Rightarrow> int list \<Rightarrow> json set \<Rightarrow> json set run" where
  "walk_pages net mk [] S = ret S"
| "walk_pages net mk (p # ps) S =
     andthen (fetch net (mk p)) (\<lambda>response.
     andthen (lift (next_page S response)) (\<lambda>S'.
       walk_pages net mk ps S'))"

text \<open>
  The body shared, word for word, by \<^verbatim>\<open>_process_simple_pagination\<close>, \<^verbatim>\<open>_process_with_sort\<close>,
  \<^verbatim>\<open>_process_single_filter\<close> and \<^verbatim>\<open>_process_filter_sort_combo\<close>; they differ in the address
  only, which \<open>mk\<close> builds from the page number. The \<^verbatim>\<open>time.sleep(0.1)\<close> between pages has
  no part in the result.
\<close>

definition paginate :: "net \<Rightarrow> (int \<Rightarrow> url) \<Rightarrow> json set run" where
  "paginate net mk =
     andthen (fetch net (mk 1)) (\<lambda>first_page_response.
     andthen (lift (first_page first_page_response)) (\<lambda>fp.
       case fp of
         None \<Rightarrow> ret {}
       | Some (S, total_pages) \<Rightarrow>
           andthen (lift (page_range total_pages)) (\<lambda>pages. walk_pages net mk pages S)))"

definition process_simple_pagination :: "net \<Rightarrow> string \<Rightarrow> int \<Rightarrow> json \<Rightarrow> json set run" where
  "process_simple_pagination net brand_name category_id products_quantity =
     paginate net (\<lambda>p. Catalog_url p brand_name None None category_id)"

definition process_with_sort ::
  "net \<Rightarrow> string \<Rightarrow> int \<Rightarrow> json \<Rightarrow> string \<Rightarrow> json set run" where
  "process_with_sort net brand_name category_id products_quantity sort_value =
     paginate net (\<lambda>p. Catalog_url p brand_name None (Some sort_value) category_id)"

definition process_single_filter ::
  "net \<Rightarrow> string \<Rightarrow> int \<Rightarrow> string \<Rightarrow> json \<Rightarrow> json set run" where
  "process_single_filter net brand_name category_id filter_id filter_value =
     paginate net (\<lambda>p. Catalog_url p brand_name (Some (filter_id, filter_value)) None category_id)"

definition process_filter_sort_combo ::
  "net \<Rightarrow> string \<Rightarrow> int \<Rightarrow> string \<Rightarrow> json \<Rightarrow> string \<Rightarrow> json set run" where
  "process_filter_sort_combo net brand_name category_id filter_id filter_value sort_value =
     paginate net
       (\<lambda>p. Catalog_url p brand_name (Some (filter_id, filter_value)) (Some sort_value)
              category_id)"

section \<open>Filters of a brand\<close>

text \<open>\<^verbatim>\<open>response and 'data' in response and 'filters' in response['data']\<close>.\<close>

definition has_filters :: "json \<Rightarrow> exn + bool" where
  "has_filters r =
     (if \<not> truthy r then Inr False
      else bnd (py_in ''data'' r) (\<lambda>d.
             if \<not> d then Inr False
             else bnd (py_getitem r ''data'') (\<lambda>data. py_in ''filters'' data)))"

definition filters_of :: "json \<Rightarrow> exn + json" where
  "filters_of r = bnd (py_getitem r ''data'') (\<lambda>data. py_getitem data ''filters'')"

text \<open>
  The loop over \<^verbatim>\<open>filters['options'].items()\<close>: the key of the first entry whose
  \<^verbatim>\<open>option_title\<close> equals the name.
\<close>

fun find_option_title :: "(string \<times> json) list \<Rightarrow> string \<Rightarrow> exn + string option" where
  "find_option_title [] filter_name = Inr None"
| "find_option_title ((filter_id, filter_data) # rest) filter_name =
     bnd (py_get filter_data ''option_title'' JNull) (\<lambda>title.
       if title = JStr filter_name then Inr (Some filter_id)
       else find_option_title rest filter_name)"

definition filter_id_in :: "json \<Rightarrow> string \<Rightarrow> exn + string option" where
  "filter_id_in response filter_name =
     bnd (has_filters response) (\<lambda>ok.
       if \<not> ok then Inr None
       else bnd (filters_of response) (\<lambda>fs.
              bnd (py_in ''options'' fs) (\<lambda>has.
                if \<not> has then Inr None
                else bnd (py_getitem fs ''options'') (\<lambda>opts.
                       bnd (py_items opts) (\<lambda>kvs. find_option_title kvs filter_name)))))"

definition get_filter_id_by_name :: "net \<Rightarrow> string \<Rightarrow> int \<Rightarrow> string \<Rightarrow> string option run" where
  "get_filter_id_by_name net brand_name category_id filter_name =
     andthen (fetch net (Catalog_url 1 brand_name None None category_id)) (\<lambda>response.
       lift (filter_id_in response filter_name))"

definition filter_values_in :: "json \<Rightarrow> string \<Rightarrow> exn + json" where
  "filter_values_in response filter_id =
     bnd (has_filters response) (\<lambda>ok.
       if \<not> ok then Inr (JList [])
       else bnd (filters_of response) (\<lambda>fs.
              bnd (py_in ''options'' fs) (\<lambda>has.
                if \<not> has then Inr (JList [])
                else bnd (py_getitem fs ''options'') (\<lambda>opts.
                       bnd (py_in filter_id opts) (\<lambda>has_id.
                         if \<not> has_id then Inr (JList [])
                         else bnd (py_getitem opts filter_id) (\<lambda>filter_data.
                                py_get filter_data ''option_values'' (JList [])))))))"

definition get_filter_values :: "net \<Rightarrow> string \<Rightarrow> int \<Rightarrow> string \<Rightarrow> json run" where
  "get_filter_values net brand_name category_id filter_id =
     andthen (fetch net (Catalog_url 1 brand_name None None category_id)) (\<lambda>response.
       lift (filter_values_in response filter_id))"

text \<open>
  The three subscripts at the head of both loops over the filter values; the name is the
  one that goes into the address.
\<close>

definition value_name_of :: "json \<Rightarrow> exn + json" where
  "value_name_of filter_value =
     bnd (py_getitem filter_value ''option_value_name'') (\<lambda>value_name.
     bnd (py_getitem filter_value ''products_quantity'') (\<lambda>value_quantity.
     bnd (py_getitem filter_value ''option_value_title'') (\<lambda>value_title.
       Inr value_name)))"

fun combo_loop ::
  "net \<Rightarrow> string \<Rightarrow> int \<Rightarrow> string \<Rightarrow> json \<Rightarrow> string list \<Rightarrow> json set \<Rightarrow> json set run" where
  "combo_loop net brand_name category_id filter_id value_name [] S = ret S"
| "combo_loop net brand_name category_id filter_id value_name (sort_value # rest) S =
     andthen (process_filter_sort_combo net brand_name category_id filter_id value_name sort_value)
       (\<lambda>ids_for_combo.
          combo_loop net brand_name category_id filter_id value_name rest (S \<union> ids_for_combo))"

fun values_sort_loop ::
  "net \<Rightarrow> string \<Rightarrow> int \<Rightarrow> string \<Rightarrow> json list \<Rightarrow> string list \<Rightarrow> json set \<Rightarrow> json set run" where
  "values_sort_loop net brand_name category_id filter_id [] sorts S = ret S"
| "values_sort_loop net brand_name category_id filter_id (filter_value # rest) sorts S =
     andthen (lift (value_name_of filter_value)) (\<lambda>value_name.
     andthen (combo_loop net brand_name category_id filter_id value_name sorts S) (\<lambda>S'.
       values_sort_loop net brand_name category_id filter_id rest sorts S'))"

fun values_loop ::
  "net \<Rightarrow> string \<Rightarrow> int \<Rightarrow> string \<Rightarrow> json list \<Rightarrow> json set \<Rightarrow> json set run" where
  "values_loop net brand_name category_id filter_id [] S = ret S"
| "values_loop net brand_name category_id filter_id (filter_value # rest) S =
     andthen (lift (value_name_of filter_value)) (\<lambda>value_name.
     andthen (process_single_filter net brand_name category_id filter_id value_name)
       (\<lambda>ids_for_filter.
          values_loop net brand_name category_id filter_id rest (S \<union> ids_for_filter)))"

text \<open>
  \<^verbatim>\<open>if not filter_id\<close> holds for \<^verbatim>\<open>None\<close> and for the empty key. The log line between the
  two tests takes \<^verbatim>\<open>len(filter_values)\<close>, which raises \<^verbatim>\<open>TypeError\<close> on the truthy values
  that cannot be iterated either, so the iteration stands for both.
\<close>

definition process_with_filters_and_sort ::
  "net \<Rightarrow> string \<Rightarrow> int \<Rightarrow> json \<Rightarrow> string \<Rightarrow> string list option \<Rightarrow> json set run" where
  "process_with_filters_and_sort net brand_name category_id products_quantity filter_name
       sort_list =
     andthen (get_filter_id_by_name net brand_name category_id filter_name) (\<lambda>found.
       case found of
         None \<Rightarrow> ret {}
       | Some filter_id \<Rightarrow>
           if filter_id = [] then ret {}
           else
             andthen (get_filter_values net brand_name category_id filter_id) (\<lambda>filter_values.
               if \<not> truthy filter_values then ret {}
               else
                 andthen (lift (py_iter filter_values)) (\<lambda>vs.
                   if given sort_list
                   then values_sort_loop net brand_name category_id filter_id vs
                          (items_of sort_list) {}
                   else values_loop net brand_name category_id filter_id vs {})))"

section \<open>Identifiers of a brand and of a category\<close>

text \<open>
  An entry of the mapping \<^verbatim>\<open>search_brands_for_category\<close> builds; the keys of the dict are
  the fields, with the prefix \<open>brand_\<close>.
\<close>

record brand_data =
  brand_option_value_name :: string
  brand_option_value_title :: json
  brand_products_quantity :: json
  brand_option_value_id :: json
  brand_is_chosen :: json
  brand_order :: json
  brand_is_value_show :: json
  brand_option_value_image :: json

fun sorts_loop :: "net \<Rightarrow> string \<Rightarrow> int \<Rightarrow> json \<Rightarrow> string list \<Rightarrow> json set \<Rightarrow> json set run" where
  "sorts_loop net brand_name category_id products_quantity [] S = ret S"
| "sorts_loop net brand_name category_id products_quantity (sort_value # rest) S =
     andthen (process_with_sort net brand_name category_id products_quantity sort_value)
       (\<lambda>sort_ids.
          sorts_loop net brand_name category_id products_quantity rest (S \<union> sort_ids))"

definition process_default_parsing ::
  "net \<Rightarrow> string \<Rightarrow> int \<Rightarrow> json \<Rightarrow> string list option \<Rightarrow> json set run" where
  "process_default_parsing net brand_name category_id products_quantity sort_list =
     (if given sort_list
      then sorts_loop net brand_name category_id products_quantity (items_of sort_list) {}
      else process_simple_pagination net brand_name category_id products_quantity)"

text \<open>
  The loop \<^verbatim>\<open>for filter_name in filters\<close> with its two variables, \<^verbatim>\<open>all_product_ids\<close> and
  \<^verbatim>\<open>found_any_filter\<close>.
\<close>

fun filters_loop ::
  "net \<Rightarrow> string \<Rightarrow> int \<Rightarrow> json \<Rightarrow> string list \<Rightarrow> string list option \<Rightarrow> json set \<times> bool
     \<Rightarrow> (json set \<times> bool) run" where
  "filters_loop net brand_name category_id products_quantity [] sort_list acc = ret acc"
| "filters_loop net brand_name category_id products_quantity (filter_name # rest) sort_list acc =
     andthen (process_with_filters_and_sort net brand_name category_id products_quantity
                filter_name sort_list)
       (\<lambda>filter_ids.
          if filter_ids \<noteq> {}
          then andthen (info (Filter_collected filter_name)) (\<lambda>_.
                 filters_loop net brand_name category_id products_quantity rest sort_list
                   (fst acc \<union> filter_ids, True))
          else filters_loop net brand_name category_id products_quantity rest sort_list acc)"

text \<open>The statement \<^verbatim>\<open>if filters: ...\<close> that opens \<^verbatim>\<open>get_product_ids_for_brand\<close>.\<close>

definition filter_phase ::
  "net \<Rightarrow> string \<Rightarrow> int \<Rightarrow> json \<Rightarrow> string list option \<Rightarrow> string list option
     \<Rightarrow> (json set \<times> bool) run" where
  "filter_phase net brand_name category_id products_quantity filters sort_list =
     (if given filters
      then filters_loop net brand_name category_id products_quantity (items_of filters)
             sort_list ({}, False)
      else ret ({}, False))"

definition get_product_ids_for_brand ::
  "net \<Rightarrow> brand_data \<Rightarrow> int \<Rightarrow> string list option \<Rightarrow> string list option \<Rightarrow> bool
     \<Rightarrow> json set run" where
  "get_product_ids_for_brand net brand category_id filters sort_list default_parse =
     (let brand_name = brand_option_value_name brand;
          products_quantity = brand_products_quantity brand
      in
        andthen (info Brand_started) (\<lambda>_.
        andthen (filter_phase net brand_name category_id products_quantity filters sort_list)
          (\<lambda>(all_product_ids, found_any_filter).
             if default_parse then
               andthen (info Default_parse_started) (\<lambda>_.
               andthen (process_default_parsing net brand_name category_id products_quantity
                          sort_list) (\<lambda>default_ids.
               andthen (info Default_parse_collected) (\<lambda>_.
               andthen (info Brand_total) (\<lambda>_.
                 ret (all_product_ids \<union> default_ids)))))
             else if given filters \<and> \<not> found_any_filter \<and> \<not> default_parse then
               andthen (info Fallback_started) (\<lambda>_.
               andthen (process_default_parsing net brand_name category_id products_quantity
                          sort_list) (\<lambda>fallback_ids.
               andthen (info Fallback_collected) (\<lambda>_.
               andthen (info Brand_total) (\<lambda>_.
                 ret (all_product_ids \<union> fallback_ids)))))
             else if \<not> given filters \<and> \<not> given sort_list \<and> \<not> default_parse then
               andthen (process_simple_pagination net brand_name category_id products_quantity)
                 (\<lambda>ids.
               andthen (info Brand_total) (\<lambda>_. ret ids))
             else
               andthen (info Brand_total) (\<lambda>_. ret all_product_ids))))"

text \<open>
  \<^verbatim>\<open>get_all_product_ids_for_category\<close>, the variant without threads, from the brand mapping
  on: the mapping is the dict \<^verbatim>\<open>search_brands_for_category\<close> returned, in insertion order.
  Nothing catches what a brand raises.
\<close>

fun brands_loop ::
  "net \<Rightarrow> (string \<times> brand_data) list \<Rightarrow> int \<Rightarrow> string list option \<Rightarrow> string list option
     \<Rightarrow> bool \<Rightarrow> json set \<Rightarrow> json set run" where
  "brands_loop net [] category_id filters sort_list default_parse S = ret S"
| "brands_loop net ((brand_name, brand) # rest) category_id filters sort_list default_parse S =
     andthen (get_product_ids_for_brand net brand category_id filters sort_list default_parse)
       (\<lambda>brand_product_ids.
          brands_loop net rest category_id filters sort_list default_parse
            (S \<union> brand_product_ids))"

definition get_all_product_ids_for_category ::
  "net \<Rightarrow> (string \<times> brand_data) list \<Rightarrow> int \<Rightarrow> string list option \<Rightarrow> string list option
     \<Rightarrow> bool \<Rightarrow> json set run" where
  "get_all_product_ids_for_category net brands_data category_id filters sort_list default_parse =
     (if brands_data = [] then ret {}
      else brands_loop net brands_data category_id filters sort_list default_parse {})"

section \<open>The scheduler: \<^verbatim>\<open>ApplicationRozetka.collect_product_ids_with_workers\<close>\<close>

text \<open>
  Each brand is a task of the pool. A task talks to the remote side through a worker of
  its own turn; here the remote side answers an address the same way whenever it is
  asked, so what a task returns or raises does not depend on the other tasks.
\<close>

definition brand_task ::
  "(url \<Rightarrow> json) \<Rightarrow> brand_data \<Rightarrow> int \<Rightarrow> string list option \<Rightarrow> string list option \<Rightarrow> bool
     \<Rightarrow> exn + json set" where
  "brand_task srv brand category_id filters sort_list default_parse =
     fst (get_product_ids_for_brand (\<lambda>tr. srv) brand category_id filters sort_list
            default_parse [])"

text \<open>
  The loop over \<^verbatim>\<open>as_completed\<close>: \<^verbatim>\<open>future.result()\<close> hands over the set of the task or
  raises what the task raised; the \<^verbatim>\<open>except\<close> clause logs it and the loop goes on.
\<close>

fun merge_completed :: "(exn + json set) list \<Rightarrow> json set \<Rightarrow> json set" where
  "merge_completed [] S = S"
| "merge_completed (Inr brand_product_ids # rest) S = merge_completed rest (S \<union> brand_product_ids)"
| "merge_completed (Inl e # rest) S = merge_completed rest S"

text \<open>
  \<open>completed\<close> is the order in which the futures complete, each future named by the entry
  of the mapping it was submitted for. \<^verbatim>\<open>ThreadPoolExecutor\<close> refuses a pool without
  workers with \<^verbatim>\<open>ValueError\<close>.
\<close>

definition collect_product_ids_with_workers ::
  "(url \<Rightarrow> json) \<Rightarrow> (string \<times> brand_data) list \<Rightarrow> int \<Rightarrow> int \<Rightarrow> string list option
     \<Rightarrow> string list option \<Rightarrow> bool \<Rightarrow> (string \<times> brand_data) list \<Rightarrow> exn + json set" where
  "collect_product_ids_with_workers srv brands_data category_id max_workers filters sort_list
       default_parse completed =
     (if brands_data = [] then Inr {}
      else if max_workers \<le> 0 then Inl ValueError
      else Inr (merge_completed
                  (map (\<lambda>(brand_name, brand).
                          brand_task srv brand category_id filters sort_list default_parse)
                     completed)
                  {}))"

section \<open>Batches: \<^verbatim>\<open>ApplicationRozetka.process_batches_with_workers\<close>\<close>

text \<open>
  \<^verbatim>\<open>range(start, stop, step)\<close> as a list, with the \<^verbatim>\<open>ValueError\<close> of a zero step, and the
  slice \<^verbatim>\<open>xs[i:j]\<close> with Python's treatment of negative and too large bounds.
\<close>

definition py_range :: "int \<Rightarrow> int \<Rightarrow> int \<Rightarrow> exn + int list" where
  "py_range start stop step =
     (if step = 0 then Inl ValueError
      else if 0 < step
      then Inr (map (\<lambda>k. start + int k * step)
                  [0..<nat ((stop - start + step - 1) div step)])
      else Inr (map (\<lambda>k. start + int k * step)
                  [0..<nat ((start - stop - step - 1) div (- step))]))"

definition py_slice :: "'a list \<Rightarrow> int \<Rightarrow> int \<Rightarrow> 'a list" where
  "py_slice xs i j =
     (let n = int (length xs);
          lo = (if i < 0 then max 0 (i + n) else min i n);
          hi = (if j < 0 then max 0 (j + n) else min j n)
      in take (nat (hi - lo)) (drop (nat lo) xs))"

text \<open>
  \<^verbatim>\<open>batches = [product_ids_list[i:i + batch_size] for i in range(0, total_products, batch_size)]\<close>,
  where \<^verbatim>\<open>product_ids_list = list(product_ids)\<close> is the set in the order Python iterates it.
\<close>

definition batches :: "'a list \<Rightarrow> int \<Rightarrow> exn + 'a list list" where
  "batches product_ids_list batch_size =
     bnd (py_range 0 (int (length product_ids_list)) batch_size) (\<lambda>starts.
       Inr (map (\<lambda>i. py_slice product_ids_list i (i + batch_size)) starts))"

text \<open>The \<open>k\<close>-th run of \<open>s\<close> consecutive elements of a list.\<close>

definition chunk :: "'a list \<Rightarrow> nat \<Rightarrow> nat \<Rightarrow> 'a list" where
  "chunk xs s k = take s (drop (k * s) xs)"

section \<open>The entry loop: \<^verbatim>\<open>ApplicationRozetka.start\<close>\<close>

text \<open>
  \<^verbatim>\<open>re.search(r'/ua/([^/]+)/c(\d+)/', url)\<close>. Both groups are followed by a slash
  they cannot contain, so each is the longest run of its characters; the search takes the
  leftmost position where the pattern fits. Digits are the ASCII ones.
\<close>

definition is_digit :: "char \<Rightarrow> bool" where
  "is_digit c = (48 \<le> (of_char c :: nat) \<and> (of_char c :: nat) \<le> 57)"

definition match_here :: "string \<Rightarrow> (string \<times> string) option" where
  "match_here s =
     (if startswith s ''/ua/'' then
        (let rest = drop 4 s;
             name = takeWhile (\<lambda>c. c \<noteq> CHR ''/'') rest;
             rest2 = dropWhile (\<lambda>c. c \<noteq> CHR ''/'') rest
         in if name \<noteq> [] \<and> startswith rest2 ''/c'' then
              (let rest3 = drop 2 rest2;
                   digits = takeWhile is_digit rest3;
                   rest4 = dropWhile is_digit rest3
               in if digits \<noteq> [] \<and> startswith rest4 ''/'' then Some (name, digits) else None)
            else None)
      else None)"

fun re_search :: "string \<Rightarrow> (string \<times> string) option" where
  "re_search [] = None"
| "re_search (c # cs) =
     (case match_here (c # cs) of Some m \<Rightarrow> Some m | None \<Rightarrow> re_search cs)"

text \<open>\<^verbatim>\<open>int(digits)\<close>, \<^verbatim>\<open>s.replace('_', ' ')\<close> and \<^verbatim>\<open>s.title()\<close> on ASCII text.\<close>

definition py_int :: "string \<Rightarrow> int" where
  "py_int ds = foldl (\<lambda>n c. 10 * n + (int (of_char c) - 48)) 0 ds"

definition replace_underscores :: "string \<Rightarrow> string" where
  "replace_underscores s = map (\<lambda>c. if c = CHR ''_'' then CHR '' '' else c) s"

definition is_upper :: "char \<Rightarrow> bool" where
  "is_upper c = (65 \<le> (of_char c :: nat) \<and> (of_char c :: nat) \<le> 90)"

definition is_lower :: "char \<Rightarrow> bool" where
  "is_lower c = (97 \<le> (of_char c :: nat) \<and> (of_char c :: nat) \<le> 122)"

definition upper_char :: "char \<Rightarrow> char" where
  "upper_char c = (if is_lower c then char_of ((of_char c :: nat) - 32) else c)"

fun title_from :: "bool \<Rightarrow> string \<Rightarrow> string" where
  "title_from previous_is_cased [] = []"
| "title_from previous_is_cased (c # cs) =
     (if is_upper c \<or> is_lower c
      then (if previous_is_cased then lower_char c else upper_char c) # title_from True cs
      else c # title_from False cs)"

definition py_title :: "string \<Rightarrow> string" where
  "py_title s = title_from False s"

text \<open>
  \<^verbatim>\<open>category_name_and_id\<close>: \<open>None\<close> stands for the pair \<^verbatim>\<open>(None, None)\<close>. \<^verbatim>\<open>int\<close> raises
  \<^verbatim>\<open>ValueError\<close> on more than 4300 digits, and the \<^verbatim>\<open>except\<close> clause of the method turns
  that into \<^verbatim>\<open>(None, None)\<close> as well. The name is cased as \<^verbatim>\<open>str.title\<close> cases ASCII
  letters.
\<close>

definition category_name_and_id :: "string \<Rightarrow> (string \<times> int) option" where
  "category_name_and_id url =
     (case re_search url of
        None \<Rightarrow> None
      | Some (name, digits) \<Rightarrow>
          if 4300 < length digits then None
          else Some (py_title (replace_underscores name), py_int digits))"

text \<open>
  What \<^verbatim>\<open>start\<close> does with the categories, as the list of its steps. \<open>collect\<close> is the
  outcome of \<^verbatim>\<open>collect_product_ids\<close> for a category, \<open>rest\<close> the outcome of the three stages
  after it (batches, saving, statistics): \<open>None\<close>, or the exception one of them raised.
\<close>

datatype start_event =
    No_categories
  | Skipped string
  | Collecting int
  | No_ids
  | Completed string
  | Critical exn

fun start_loop ::
  "(int \<Rightarrow> exn + json set) \<Rightarrow> (string \<Rightarrow> json set \<Rightarrow> exn option) \<Rightarrow> string list
     \<Rightarrow> start_event list \<Rightarrow> start_event list" where
  "start_loop collect rest [] tr = tr"
| "start_loop collect rest (category_url # categories) tr =
     (case category_name_and_id category_url of
        None \<Rightarrow> start_loop collect rest categories (tr @ [Skipped category_url])
      | Some (name, category_id) \<Rightarrow>
          if category_id = 0
          then start_loop collect rest categories (tr @ [Skipped category_url])
          else
            (case collect category_id of
               Inl e \<Rightarrow>
                 start_loop collect rest categories (tr @ [Collecting category_id, Critical e])
             | Inr product_ids \<Rightarrow>
                 if product_ids = {} then tr @ [Collecting category_id, No_ids]
                 else
                   (case rest name product_ids of
                      Some e \<Rightarrow>
                        start_loop collect rest categories
                          (tr @ [Collecting category_id, Critical e])
                    | None \<Rightarrow>
                        start_loop collect rest categories
                          (tr @ [Collecting category_id, Completed name]))))"

definition start ::
  "(int \<Rightarrow> exn + json set) \<Rightarrow> (string \<Rightarrow> json set \<Rightarrow> exn option) \<Rightarrow> string list
     \<Rightarrow> start_event list" where
  "start collect rest categories =
     (if categories = [] then [No_categories] else start_loop collect rest categories [])"

section \<open>Notions used in the proofs\<close>

text \<open>
  \<open>emits P m\<close>: whatever the trace before, the method \<open>m\<close> only appends events, and all of
  them satisfy \<open>P\<close>. \<open>stateless m\<close>: result and appended events of \<open>m\<close> do not depend on
  the trace before.
\<close>

definition emits :: "(event \<Rightarrow> bool) \<Rightarrow> 'a run \<Rightarrow> bool" where
  "emits P m = (\<forall>tr. \<exists>ev. snd (m tr) = tr @ ev \<and> list_all P ev)"

definition stateless :: "'a run \<Rightarrow> bool" where
  "stateless m = (\<forall>tr. m tr = (fst (m []), tr @ snd (m [])))"

definition not_fallback :: "event \<Rightarrow> bool" where
  "not_fallback e = (e \<noteq> Info Fallback_started)"

text \<open>What follows the filter phase when \<^verbatim>\<open>default_parse\<close> is off.\<close>

definition after_filters ::
  "net \<Rightarrow> string \<Rightarrow> int \<Rightarrow> json \<Rightarrow> string list option \<Rightarrow> string list option
     \<Rightarrow> json set \<times> bool \<Rightarrow> json set run" where
  "after_filters net b c q filters sl acc =
     (if given filters \<and> \<not> snd acc then
        andthen (info Fallback_started) (\<lambda>_.
        andthen (process_default_parsing net b c q sl) (\<lambda>fallback_ids.
        andthen (info Fallback_collected) (\<lambda>_.
        andthen (info Brand_total) (\<lambda>_. ret (fst acc \<union> fallback_ids)))))
      else if \<not> given filters \<and> \<not> given sl then
        andthen (process_simple_pagination net b c q) (\<lambda>ids.
        andthen (info Brand_total) (\<lambda>_. ret ids))
      else andthen (info Brand_total) (\<lambda>_. ret (fst acc)))"

text \<open>The set a task hands to the merge: nothing when it raised.\<close>

fun task_ids :: "exn + json set \<Rightarrow> json set" where
  "task_ids (Inr ids) = ids"
| "task_ids (Inl e) = {}"

fun returned :: "exn + 'a \<Rightarrow> bool" where
  "returned (Inr v) = True"
| "returned (Inl e) = False"

text \<open>
  The payload of page \<open>p\<close> in a walk that starts at the trace \<open>tr\<close>: the pages before it
  have been requested, in order.
\<close>

definition page_response :: "net \<Rightarrow> (int \<Rightarrow> url) \<Rightarrow> event list \<Rightarrow> int \<Rightarrow> json" where
  "page_response net mk tr p = net (tr @ map (\<lambda>q. Request (mk q)) [1..p - 1]) (mk p)"

text \<open>
  The sets the filter tasks of a brand return, in the order of the requested filters: the
  loop \<^verbatim>\<open>for filter_name in filters\<close> with its calls and its log line, without its two
  variables.
\<close>

fun filter_task_sets ::
  "net \<Rightarrow> string \<Rightarrow> int \<Rightarrow> json \<Rightarrow> string list \<Rightarrow> string list option \<Rightarrow> json set list run" where
  "filter_task_sets net brand_name category_id products_quantity [] sort_list = ret []"
| "filter_task_sets net brand_name category_id products_quantity (filter_name # rest) sort_list =
     andthen (process_with_filters_and_sort net brand_name category_id products_quantity
                filter_name sort_list)
       (\<lambda>filter_ids.
     andthen (if filter_ids \<noteq> {} then info (Filter_collected filter_name) else ret ()) (\<lambda>_.
     andthen (filter_task_sets net brand_name category_id products_quantity rest sort_list)
       (\<lambda>sets. ret (filter_ids # sets))))"

section \<open>Concrete inputs\<close>

text \<open>The inputs at which the theorems below are evaluated.\<close>

definition always :: "http_outcome \<Rightarrow> nat \<Rightarrow> http_outcome" where
  "always out k = out"

definition cfg_retries :: "int \<Rightarrow> rozenka_settings" where
  "cfg_retries n =
     \<lparr>cfg_max_workers = 10, cfg_filters = None, cfg_sort_list = None,
      cfg_default_parse = False, cfg_batch_size = 60, cfg_save_data = ''csv'',
      cfg_max_retries = n, cfg_request_timeout = 30\<rparr>"

definition http_reply :: "int \<Rightarrow> string \<Rightarrow> string \<Rightarrow> json option \<Rightarrow> http_outcome" where
  "http_reply s ct t j =
     Responded \<lparr>status_code = s, content_type = Some ct, resp_text = t, json_body = j\<rparr>"

definition timeout_then_404 :: "nat \<Rightarrow> http_outcome" where
  "timeout_then_404 k =
     (if k = 1 then http_reply 404 ''text/html'' ''Not Found'' None else Timeout)"

definition too_many_requests :: http_outcome where
  "too_many_requests = http_reply 429 ''text/html'' ''Too Many Requests'' None"

definition broken_json :: http_outcome where
  "broken_json = http_reply 200 ''application/json; charset=UTF-8'' ''{\"data\": '' None"

definition api_url :: string where
  "api_url = ''https://catalog-api.rozetka.com.ua/v0.1/api/category/catalog''"

definition seven_ids :: "json list" where
  "seven_ids = map JInt [101, 102, 103, 104, 105, 106, 107]"

definition monitors_url :: string where
  "monitors_url = ''https://rozetka.com.ua/ua/monitors/c80089/''"

definition notebooks_url :: string where
  "notebooks_url = ''https://rozetka.com.ua/ua/notebooks/c80004/''"

definition not_a_category :: string where
  "not_a_category = ''https://rozetka.com.ua/ua/promo/newyear/''"

definition nothing_for_monitors :: "int \<Rightarrow> exn + json set" where
  "nothing_for_monitors category_id = (if category_id = 80089 then Inr {} else Inr {JInt 1})"

definition failure_for_monitors :: "int \<Rightarrow> exn + json set" where
  "failure_for_monitors category_id =
     (if category_id = 80089 then Inl ValueError else Inr {JInt 1})"

definition stages_ok :: "string \<Rightarrow> json set \<Rightarrow> exn option" where
  "stages_ok name product_ids = None"

definition dell :: brand_data where
  "dell =
     \<lparr>brand_option_value_name = ''dell'', brand_option_value_title = JStr ''Dell'',
      brand_products_quantity = JInt 3, brand_option_value_id = JInt 11,
      brand_is_chosen = JBool False, brand_order = JInt 0,
      brand_is_value_show = JBool True, brand_option_value_image = JNull\<rparr>"

definition lg :: brand_data where
  "lg =
     \<lparr>brand_option_value_name = ''lg'', brand_option_value_title = JStr ''LG'',
      brand_products_quantity = JInt 3, brand_option_value_id = JInt 12,
      brand_is_chosen = JBool False, brand_order = JInt 1,
      brand_is_value_show = JBool True, brand_option_value_image = JNull\<rparr>"

definition silent :: net where
  "silent tr u = JNull"

text \<open>A catalogue page with identifiers and a page count, and no filters.\<close>

definition goods_page :: "int list \<Rightarrow> int \<Rightarrow> json" where
  "goods_page ids total_pages =
     JDict [(''data'', JDict [(''goods'',
       JDict [(''ids'', JList (map JInt ids)), (''total_pages'', JInt total_pages)])])]"

text \<open>
  A catalogue page of a brand that has the filter \<^verbatim>\<open>Color\<close>, under the key 21, with the one
  value \<^verbatim>\<open>red\<close>.
\<close>

definition color_page :: "int list \<Rightarrow> int \<Rightarrow> json" where
  "color_page ids total_pages =
     JDict [(''data'', JDict
       [(''filters'', JDict [(''options'', JDict
          [(''21'', JDict
             [(''option_title'', JStr ''Color''),
              (''option_values'', JList
                 [JDict [(''option_value_name'', JStr ''red''),
                         (''products_quantity'', JInt 3),
                         (''option_value_title'', JStr ''Red'')]])])])]),
        (''goods'',
          JDict [(''ids'', JList (map JInt ids)), (''total_pages'', JInt total_pages)])])]"

text \<open>The text of a page served with status 200 and an HTML content type.\<close>

definition html_text :: string where
  "html_text = ''<html><body data-reason=\"busy\">Please retry</body></html>''"

definition html_reply :: http_outcome where
  "html_reply = http_reply 200 ''text/html; charset=UTF-8'' html_text None"

text \<open>
  Three pages of a brand: the second comes back as that HTML text in the first remote
  side, as \<^verbatim>\<open>None\<close> in the second.
\<close>

definition html_on_page_2 :: net where
  "html_on_page_2 tr u =
     (if url_page u = 1 then goods_page [1, 2] 3
      else if url_page u = 2 then JStr html_text
      else goods_page [3] 3)"

definition none_on_page_2 :: net where
  "none_on_page_2 tr u =
     (if url_page u = 1 then goods_page [1, 2] 3
      else if url_page u = 2 then JNull
      else goods_page [3] 3)"

text \<open>
  A brand without filters: its listing has two pages under the order \<^verbatim>\<open>cheap\<close>, one
  under \<^verbatim>\<open>rank\<close>, one without an order.
\<close>

definition sorted_listing :: "url \<Rightarrow> json" where
  "sorted_listing u =
     (if url_sort u = Some ''cheap''
      then (if url_page u = 1 then goods_page [1, 2] 2 else goods_page [5] 2)
      else if url_sort u = Some ''rank'' then goods_page [3, 4] 1
      else goods_page [1, 2, 3, 4] 1)"

definition sorted_net :: net where
  "sorted_net tr u = sorted_listing u"

text \<open>
  A brand with the filter \<^verbatim>\<open>Color\<close>: the listing restricted to a value of it has one page
  in the first remote side, and cannot be fetched in the second.
\<close>

definition color_listing :: "url \<Rightarrow> json" where
  "color_listing u =
     (case url_facet u of None \<Rightarrow> color_page [1, 2] 1 | Some fv \<Rightarrow> goods_page [1] 1)"

definition color_net :: net where
  "color_net tr u = color_listing u"

definition color_unfetched :: "url \<Rightarrow> json" where
  "color_unfetched u =
     (case url_facet u of None \<Rightarrow> color_page [1, 2] 1 | Some fv \<Rightarrow> JNull)"

definition color_unfetched_net :: net where
  "color_unfetched_net tr u = color_unfetched u"

text \<open>
  Two brands. In the second remote side every page of the first brand comes back as the
  HTML text.
\<close>

definition two_brands :: "(string \<times> brand_data) list" where
  "two_brands = [(''dell'', dell), (''lg'', lg)]"

definition lg_first :: "(string \<times> brand_data) list" where
  "lg_first = [(''lg'', lg), (''dell'', dell)]"

definition html_for_dell :: "url \<Rightarrow> json" where
  "html_for_dell u = (if url_producer u = ''dell'' then JStr html_text else goods_page [7] 1)"

definition html_for_dell_net :: net where
  "html_for_dell_net tr u = html_for_dell u"

text \<open>The same brand when every page under the order \<^verbatim>\<open>cheap\<close> comes back as the HTML text.\<close>

definition html_for_cheap :: "url \<Rightarrow> json" where
  "html_for_cheap u = (if url_sort u = Some ''cheap'' then JStr html_text else sorted_listing u)"

definition html_for_cheap_net :: net where
  "html_for_cheap_net tr u = html_for_cheap u"

section \<open>Properties of the fetch executor\<close>

lemma gets_append: "gets (xs @ ys) = gets xs + gets ys"
  by (simp add: gets_def)

lemma attempt_gets: "gets (snd (attempt mr u a out)) = 1"
  by (simp add: attempt_def gets_def Let_def split: http_outcome.splits option.splits)

lemma attempt_404:
  "is_status 404 out \<Longrightarrow> attempt mr u a out = (Return JNull, [Sleep_delay, Get u])"
  by (cases out) (simp_all add: attempt_def is_status_def Let_def)

lemma attempt_429:
  "is_status 429 out \<Longrightarrow>
   attempt mr u a out = (if int a = mr - 1 then Return JNull else Continue, events_429 mr u a)"
  by (cases out) (simp_all add: attempt_def is_status_def events_429_def Let_def)

lemma attempt_decode_fails:
  "json_decode_fails out \<Longrightarrow>
   attempt mr u a out
     = (if int a = mr - 1 then Return JNull else Continue, [Sleep_delay, Get u])"
  by (cases out) (simp_all add: attempt_def json_decode_fails_def Let_def)

text \<open>
  The loop from attempt \<open>i\<close> on, when attempt \<open>k\<close> is answered by a 404 and \<open>i\<close> GETs have
  been made: no GET follows the one of attempt \<open>k\<close>.
\<close>

lemma retry_loop_404:
  assumes "is_status 404 (http k)"
  shows "i \<le> k \<Longrightarrow> gets tr = i \<Longrightarrow>
         (case retry_loop mr u http [i..<n] tr of
            (v, tr') \<Rightarrow>
              gets tr' \<le> Suc k \<and> (gets tr' = Suc k \<longrightarrow> v = JNull \<and> last tr' = Get u))"
proof (induction "n - i" arbitrary: i tr)
  case 0
  then show ?case by simp
next
  case (Suc d)
  then have lt: "i < n" by simp
  then have up: "[i..<n] = i # [Suc i..<n]" by (simp add: upt_conv_Cons)
  obtain s ev where at: "attempt mr u i (http i) = (s, ev)"
    by (cases "attempt mr u i (http i)")
  have g: "gets ev = 1" using attempt_gets [of mr u i "http i"] at by simp
  show ?case
  proof (cases "i = k")
    case True
    with assms at have "s = Return JNull" "ev = [Sleep_delay, Get u]"
      using attempt_404 [of "http k" mr u k] by auto
    with up at Suc.prems True show ?thesis by (simp add: gets_append gets_def)
  next
    case False
    with Suc.prems have ik: "Suc i \<le> k" by simp
    show ?thesis
    proof (cases s)
      case (Return v)
      with up at g Suc.prems ik show ?thesis by (simp add: gets_append)
    next
      case Continue
      have "gets (tr @ ev) = Suc i" using g Suc.prems by (simp add: gets_append)
      moreover have "d = n - Suc i" using Suc.hyps(2) by simp
      ultimately have
        "case retry_loop mr u http [Suc i..<n] (tr @ ev) of
           (v, tr') \<Rightarrow>
             gets tr' \<le> Suc k \<and> (gets tr' = Suc k \<longrightarrow> v = JNull \<and> last tr' = Get u)"
        using Suc.hyps(1) [of "Suc i" "tr @ ev"] ik by simp
      with up at Continue show ?thesis by simp
    qed
  qed
qed

text \<open>
  Claim C4. When attempt \<open>k\<close> of a fetch is answered by HTTP 404, the fetch makes no GET
  after that one: it has made at most \<open>k + 1\<close> of them, and when it got as far as attempt
  \<open>k\<close> it returns \<^verbatim>\<open>None\<close> with the GET of that attempt as its last event, so neither a
  backoff sleep nor another attempt follows the 404.
\<close>

theorem make_request_404_terminal:
  assumes "is_status 404 (http k)"
  shows "gets (snd (make_request cfg http url page)) \<le> Suc k
         \<and> (gets (snd (make_request cfg http url page)) = Suc k \<longrightarrow>
              fst (make_request cfg http url page) = JNull
              \<and> last (snd (make_request cfg http url page)) = Get (full_url url page))"
  unfolding make_request_def
  using retry_loop_404 [where http = http and k = k and i = 0 and tr = "[]"
      and mr = "cfg_max_retries cfg" and u = "full_url url page"
      and n = "nat (cfg_max_retries cfg)"] assms
  by (simp add: gets_def split: prod.splits)

theorem make_request_404_terminal_witness:
  "is_status 404 (timeout_then_404 1)
   \<and> gets (snd (make_request (cfg_retries 3) timeout_then_404 api_url None)) = Suc 1
   \<and> fst (make_request (cfg_retries 3) timeout_then_404 api_url None) = JNull
   \<and> last (snd (make_request (cfg_retries 3) timeout_then_404 api_url None))
       = Get (full_url api_url None)"
proof -
  have h: "is_status 404 (timeout_then_404 1)"
    by (simp add: is_status_def timeout_then_404_def http_reply_def)
  have g: "gets (snd (make_request (cfg_retries 3) timeout_then_404 api_url None)) = Suc 1"
    by code_simp
  from make_request_404_terminal [where http = timeout_then_404 and k = 1
      and cfg = "cfg_retries 3" and url = api_url and page = None] g h
  show ?thesis by simp
qed

lemma retry_loop_429:
  assumes "\<forall>k. is_status 429 (http k)"
  shows "int n = mr \<Longrightarrow> i \<le> n \<Longrightarrow>
     retry_loop mr u http [i..<n] tr = (JNull, tr @ concat (map (events_429 mr u) [i..<n]))"
proof (induction "n - i" arbitrary: i tr)
  case 0
  then show ?case by simp
next
  case (Suc d)
  then have lt: "i < n" by simp
  then have up: "[i..<n] = i # [Suc i..<n]" by (simp add: upt_conv_Cons)
  have at: "attempt mr u i (http i)
              = (if int i = mr - 1 then Return JNull else Continue, events_429 mr u i)"
    using assms attempt_429 [of "http i" mr u i] by simp
  show ?case
  proof (cases "int i = mr - 1")
    case True
    with Suc.prems have "Suc i = n" by simp
    with up at True show ?thesis by simp
  next
    case False
    have "retry_loop mr u http [Suc i..<n] (tr @ events_429 mr u i)
       = (JNull, (tr @ events_429 mr u i) @ concat (map (events_429 mr u) [Suc i..<n]))"
      using Suc.hyps(1) [of "Suc i"] Suc.hyps(2) Suc.prems lt by simp
    with up at False show ?thesis by simp
  qed
qed

lemma gets_events_429: "gets (concat (map (events_429 mr u) xs)) = length xs"
  by (induction xs) (simp_all add: gets_def events_429_def)

text \<open>
  Claim C5. When every attempt is answered by HTTP 429 (and \<^verbatim>\<open>max_retries\<close> is not
  negative), the fetch returns \<^verbatim>\<open>None\<close> after exactly \<^verbatim>\<open>max_retries\<close> GETs, and attempt
  \<open>a\<close> consists of the pre-request delay, the GET, a sleep of \<open>5 * (a + 1)\<close> seconds and,
  except after the last attempt, the backoff sleep.
\<close>

theorem make_request_always_429:
  assumes "\<forall>k. is_status 429 (http k)" and "0 \<le> cfg_max_retries cfg"
  shows "make_request cfg http url page =
           (JNull, concat (map (events_429 (cfg_max_retries cfg) (full_url url page))
                             [0..<nat (cfg_max_retries cfg)]))
         \<and> int (gets (snd (make_request cfg http url page))) = cfg_max_retries cfg"
proof -
  have "make_request cfg http url page =
           (JNull, concat (map (events_429 (cfg_max_retries cfg) (full_url url page))
                             [0..<nat (cfg_max_retries cfg)]))"
    unfolding make_request_def
    using retry_loop_429 [where http = http and n = "nat (cfg_max_retries cfg)"
        and mr = "cfg_max_retries cfg" and i = 0 and tr = "[]" and u = "full_url url page"]
      assms
    by simp
  then show ?thesis using assms(2) by (simp add: gets_events_429)
qed

theorem make_request_always_429_witness:
  "(\<forall>k. is_status 429 (always too_many_requests k))
   \<and> 0 \<le> cfg_max_retries (cfg_retries 3)
   \<and> make_request (cfg_retries 3) (always too_many_requests) api_url None
      = (JNull,
         [Sleep_delay, Get (api_url, None), Sleep_429 5, Sleep_backoff 1,
          Sleep_delay, Get (api_url, None), Sleep_429 10, Sleep_backoff 2,
          Sleep_delay, Get (api_url, None), Sleep_429 15])
   \<and> int (gets (snd (make_request (cfg_retries 3) (always too_many_requests) api_url None)))
       = 3"
proof -
  have h: "\<forall>k. is_status 429 (always too_many_requests k)"
    by (simp add: is_status_def always_def too_many_requests_def http_reply_def)
  have p: "0 \<le> cfg_max_retries (cfg_retries 3)" by (simp add: cfg_retries_def)
  have m: "cfg_max_retries (cfg_retries 3) = 3" by (simp add: cfg_retries_def)
  have n: "concat (map (events_429 3 (full_url api_url None)) [0..<3])
      = [Sleep_delay, Get (api_url, None), Sleep_429 5, Sleep_backoff 1,
         Sleep_delay, Get (api_url, None), Sleep_429 10, Sleep_backoff 2,
         Sleep_delay, Get (api_url, None), Sleep_429 15]"
    by code_simp
  from make_request_always_429 [OF h p, of api_url None] h p show ?thesis
    by (simp add: m n gets_def)
qed

text \<open>
  Claim C6, as the code has it. When attempt \<open>a\<close> is answered by HTTP 200 with a JSON
  content type and a body that does not decode, the loop goes on to the next attempt at
  once (the attempt is spent, no backoff sleep is made), unless \<open>a\<close> is the last attempt:
  then the fetch returns \<^verbatim>\<open>None\<close>.
\<close>

theorem json_decode_failure_retried:
  assumes "json_decode_fails (http a)"
  shows "retry_loop mr u http (a # as) tr =
           (if int a = mr - 1 then (JNull, tr @ [Sleep_delay, Get u])
            else retry_loop mr u http as (tr @ [Sleep_delay, Get u]))"
  using attempt_decode_fails [OF assms, of mr u a] by simp

theorem json_decode_failure_retried_witness:
  "json_decode_fails (always broken_json 0)
   \<and> retry_loop 3 api_url (always broken_json) [0, 1, 2] []
     = (JNull, [Sleep_delay, Get api_url, Sleep_delay, Get api_url, Sleep_delay, Get api_url])"
proof -
  have h: "\<And>k. json_decode_fails (always broken_json k)"
    by (simp add: json_decode_fails_def always_def broken_json_def http_reply_def
        lower_def lower_char_def)
  show ?thesis
    using json_decode_failure_retried [where http = "always broken_json" and a = 0
        and mr = 3 and u = api_url and as = "[1, 2]" and tr = "[]"]
      json_decode_failure_retried [where http = "always broken_json" and a = 1
        and mr = 3 and u = api_url and as = "[2]" and tr = "[Sleep_delay, Get api_url]"]
      json_decode_failure_retried [where http = "always broken_json" and a = 2
        and mr = 3 and u = api_url and as = "[]"
        and tr = "[Sleep_delay, Get api_url, Sleep_delay, Get api_url]"]
      h
    by simp
qed

text \<open>
  The claim as the specification words it fails: a decoding failure on the last attempt
  gives the plain \<^verbatim>\<open>None\<close> that a timeout on the last attempt gives, with the same events.
\<close>

theorem json_decode_failure_counterexample:
  "make_request (cfg_retries 1) (always broken_json) api_url None
     = (JNull, [Sleep_delay, Get (api_url, None)])
   \<and> make_request (cfg_retries 1) (always broken_json) api_url None
       = make_request (cfg_retries 1) (always Timeout) api_url None"
  by code_simp

section \<open>Properties of the batch partition\<close>

lemma py_slice_nonneg:
  assumes "0 \<le> i" "0 < S"
  shows "py_slice xs i (i + S) = take (nat S) (drop (nat i) xs)"
proof (cases "i \<le> int (length xs)")
  case True
  with assms show ?thesis by (auto simp: py_slice_def Let_def min_def)
next
  case False
  with assms show ?thesis by (simp add: py_slice_def Let_def min_def)
qed

lemma py_slice_chunk:
  assumes "0 < S"
  shows "py_slice xs (int k * S) (int k * S + S) = chunk xs (nat S) k"
proof -
  have a: "nat (int k * S) = k * nat S" using assms by (simp add: nat_mult_distrib)
  have nn: "0 \<le> int k * S" using assms by simp
  show ?thesis using py_slice_nonneg [OF nn assms, of xs] a by (simp add: chunk_def)
qed

lemma batches_chunks:
  assumes "0 < S"
  shows "batches xs S
           = Inr (map (chunk xs (nat S)) [0..<nat ((int (length xs) + S - 1) div S)])"
  using assms by (simp add: batches_def py_range_def bnd_def py_slice_chunk)

lemma concat_chunks: "concat (map (chunk xs s) [0..<c]) = take (c * s) xs"
proof (induction c)
  case 0
  then show ?case by simp
next
  case (Suc c)
  have "take (c * s) xs @ take s (drop (c * s) xs) = take (c * s + s) xs"
    by (simp add: take_add)
  with Suc show ?case by (simp add: chunk_def add.commute)
qed

lemma count_ceiling:
  assumes "0 < S"
  shows "int (nat ((int M + S - 1) div S)) = \<lceil>real M / real_of_int S\<rceil>"
proof -
  define a where "a = (int M + S - 1) div S"
  define r where "r = (int M + S - 1) mod S"
  have e: "S * a + r = int M + S - 1" by (simp add: a_def r_def)
  have r0: "0 \<le> r" and r1: "r < S" using assms by (simp_all add: r_def)
  have lo: "a * S \<le> int M + S - 1" using e r0 by (simp add: mult.commute)
  have hi: "int M + S - 1 < a * S + S" using e r1 by (simp add: mult.commute)
  have a0: "0 \<le> a" unfolding a_def using assms by (simp add: pos_imp_zdiv_nonneg_iff)
  have S0: "0 < real_of_int S" using assms by simp
  have "(real_of_int a - 1) * real_of_int S < real M"
  proof -
    have "(a - 1) * S < int M" using lo by (simp add: algebra_simps)
    then have "real_of_int ((a - 1) * S) < real_of_int (int M)" by linarith
    then show ?thesis by simp
  qed
  then have l: "real_of_int a - 1 < real M / real_of_int S"
    using S0 by (simp add: pos_less_divide_eq)
  have "real M \<le> real_of_int a * real_of_int S"
  proof -
    have "int M \<le> a * S" using hi by simp
    then have "real_of_int (int M) \<le> real_of_int (a * S)" by linarith
    then show ?thesis by simp
  qed
  then have h: "real M / real_of_int S \<le> real_of_int a"
    using S0 by (simp add: pos_divide_le_eq)
  have "\<lceil>real M / real_of_int S\<rceil> = a" using l h by (simp add: ceiling_eq_iff)
  then show ?thesis using a0 by (simp add: a_def)
qed

lemma length_chunk: "length (chunk xs s k) = min s (length xs - k * s)"
  by (simp add: chunk_def)

lemma chunk_nth:
  "j < length (chunk xs s k) \<Longrightarrow> chunk xs s k ! j = xs ! (k * s + j)"
proof -
  assume "j < length (chunk xs s k)"
  then have "j < s" "k * s \<le> length xs" by (auto simp: chunk_def)
  then show ?thesis by (simp add: chunk_def)
qed

lemma in_chunk_iff:
  assumes "distinct xs" "i < length xs" "0 < s"
  shows "xs ! i \<in> set (chunk xs s k) \<longleftrightarrow> k = i div s"
proof
  assume "xs ! i \<in> set (chunk xs s k)"
  then obtain j where j: "j < length (chunk xs s k)" "chunk xs s k ! j = xs ! i"
    by (auto simp: in_set_conv_nth)
  then have b: "j < s" "k * s + j < length xs" by (auto simp: length_chunk)
  with j have "xs ! (k * s + j) = xs ! i" by (simp add: chunk_nth)
  with assms b have "k * s + j = i" by (simp add: nth_eq_iff_index_eq)
  with b show "k = i div s" by auto
next
  assume k: "k = i div s"
  have m: "i mod s < s" using assms by simp
  have e: "k * s + i mod s = i" using k by simp
  have "i mod s < length (chunk xs s k)"
    using assms m e by (simp add: length_chunk)
  moreover from this have "chunk xs s k ! (i mod s) = xs ! i" using e by (simp add: chunk_nth)
  ultimately show "xs ! i \<in> set (chunk xs s k)" by (metis nth_mem)
qed


lemma count_bounds:
  fixes M :: nat
  assumes "0 < S" and c_def: "c = nat ((int M + S - 1) div S)"
  shows "M \<le> c * nat S" and "0 < c \<Longrightarrow> (c - 1) * nat S < M"
proof -
  define a where "a = (int M + S - 1) div S"
  define r where "r = (int M + S - 1) mod S"
  have e: "S * a + r = int M + S - 1" by (simp add: a_def r_def)
  have r0: "0 \<le> r" and r1: "r < S" using assms by (simp_all add: r_def)
  have a0: "0 \<le> a" unfolding a_def using assms by (simp add: pos_imp_zdiv_nonneg_iff)
  have ca: "int c = a" using a0 by (simp add: c_def a_def)
  have "int M \<le> S * a" using e r1 by linarith
  then have "int M \<le> int c * int (nat S)" using ca assms by (simp add: mult.commute)
  then have "int M \<le> int (c * nat S)" by simp
  then show "M \<le> c * nat S" by linarith
  assume "0 < c"
  have "S * a - S < int M" using e r0 by linarith
  then have "(int c - 1) * int (nat S) < int M" using ca assms by (simp add: algebra_simps)
  moreover have "int (c - 1) = int c - 1" using \<open>0 < c\<close> by simp
  ultimately have "int ((c - 1) * nat S) < int M" by simp
  then show "(c - 1) * nat S < M" by linarith
qed

text \<open>
  Claim C8. For a batch size \<open>S > 0\<close> and the identifiers in any order without
  repetition, the partition succeeds with \<open>\<lceil>M / S\<rceil>\<close> batches, the batches laid end to end
  are the list, every identifier is in exactly one batch, every batch but the last has
  \<open>S\<close> identifiers, and the last has between 1 and \<open>S\<close>.
\<close>

theorem batches_partition:
  assumes "0 < S" and "distinct xs"
  shows "\<exists>bs. batches xs S = Inr bs
           \<and> int (length bs) = \<lceil>real (length xs) / real_of_int S\<rceil>
           \<and> concat bs = xs
           \<and> (\<forall>x \<in> set xs. \<exists>!k. k < length bs \<and> x \<in> set (bs ! k))
           \<and> (\<forall>k. Suc k < length bs \<longrightarrow> int (length (bs ! k)) = S)
           \<and> (bs \<noteq> [] \<longrightarrow> 0 < length (last bs) \<and> int (length (last bs)) \<le> S)"
proof -
  define s where "s = nat S"
  define c where "c = nat ((int (length xs) + S - 1) div S)"
  define bs where "bs = map (chunk xs s) [0..<c]"
  have s0: "0 < s" and sS: "int s = S" using assms(1) by (simp_all add: s_def)
  have up: "length xs \<le> c * s"
    using count_bounds(1) [OF assms(1) c_def] by (simp add: s_def)
  have low: "0 < c \<Longrightarrow> (c - 1) * s < length xs"
    using count_bounds(2) [OF assms(1) c_def] by (simp add: s_def)
  have len: "length bs = c" by (simp add: bs_def)
  have nth: "\<And>k. k < c \<Longrightarrow> bs ! k = chunk xs s k" by (simp add: bs_def)
  have 1: "batches xs S = Inr bs"
    using batches_chunks [OF assms(1), of xs] by (simp add: bs_def c_def s_def)
  have 2: "int (length bs) = \<lceil>real (length xs) / real_of_int S\<rceil>"
    using count_ceiling [OF assms(1), of "length xs"] by (simp add: len c_def)
  have 3: "concat bs = xs" using up by (simp add: bs_def concat_chunks)
  have 4: "\<forall>x \<in> set xs. \<exists>!k. k < length bs \<and> x \<in> set (bs ! k)"
  proof
    fix x assume "x \<in> set xs"
    then obtain i where i: "i < length xs" "xs ! i = x" by (auto simp: in_set_conv_nth)
    have "i < c * s" using i up by simp
    then have d: "i div s < c" using s0 by (simp add: less_mult_imp_div_less)
    have "\<And>k. k < c \<Longrightarrow> (x \<in> set (bs ! k)) = (k = i div s)"
      using in_chunk_iff [OF assms(2) i(1) s0] i(2) nth by simp
    then show "\<exists>!k. k < length bs \<and> x \<in> set (bs ! k)"
      using d len by auto
  qed
  have 5: "\<forall>k. Suc k < length bs \<longrightarrow> int (length (bs ! k)) = S"
  proof (intro allI impI)
    fix k assume k: "Suc k < length bs"
    then have "Suc k \<le> c - 1" "0 < c" using len by simp_all
    then have "Suc k * s \<le> (c - 1) * s" by (intro mult_le_mono1)
    with low \<open>0 < c\<close> have "k * s + s < length xs" by (simp add: add.commute)
    then have "length (chunk xs s k) = s" by (simp add: length_chunk)
    with k len nth sS show "int (length (bs ! k)) = S" by simp
  qed
  have 6: "bs \<noteq> [] \<longrightarrow> 0 < length (last bs) \<and> int (length (last bs)) \<le> S"
  proof
    assume "bs \<noteq> []"
    then have c0: "0 < c" using len by (cases c) auto
    have "last bs = bs ! (c - 1)" using \<open>bs \<noteq> []\<close> len by (simp add: last_conv_nth)
    then have l: "last bs = chunk xs s (c - 1)" using nth c0 by simp
    show "0 < length (last bs) \<and> int (length (last bs)) \<le> S"
      using l low [OF c0] s0 sS by (simp add: length_chunk)
  qed
  from 1 2 3 4 5 6 show ?thesis by blast
qed

theorem batches_partition_witness:
  "(0::int) < 3 \<and> distinct seven_ids
   \<and> batches seven_ids 3
       = Inr [[JInt 101, JInt 102, JInt 103], [JInt 104, JInt 105, JInt 106], [JInt 107]]
   \<and> \<lceil>real (length seven_ids) / real_of_int 3\<rceil> = 3"
proof -
  have d: "distinct seven_ids" by (simp add: seven_ids_def)
  have b: "batches seven_ids 3
       = Inr [[JInt 101, JInt 102, JInt 103], [JInt 104, JInt 105, JInt 106], [JInt 107]]"
    by code_simp
  obtain bs where bs: "batches seven_ids 3 = Inr bs"
     "int (length bs) = \<lceil>real (length seven_ids) / real_of_int 3\<rceil>"
    using batches_partition [of 3 seven_ids] d by auto
  from bs(1) b have "bs = [[JInt 101, JInt 102, JInt 103], [JInt 104, JInt 105, JInt 106], [JInt 107]]"
    by simp
  then have "int (length bs) = 3" by simp
  with bs(2) have "\<lceil>real (length seven_ids) / real_of_int 3\<rceil> = 3" by simp
  with d b show ?thesis by simp
qed

section \<open>Properties of the pagination walk\<close>

lemma add_ids_union:
  "add_ids S g = bnd (add_ids {} g) (\<lambda>T. Inr (S \<union> T))"
  by (auto simp: add_ids_def set_update_def bnd_def split: sum.splits)

lemma next_page_union: "next_page S r = bnd (next_page {} r) (\<lambda>T. Inr (S \<union> T))"
  using add_ids_union [of S]
  by (auto simp: next_page_def bnd_def split: sum.splits)

lemma walk_pages_returned:
  assumes "\<forall>p \<in> {a..N}. returned (next_page {} (page_response net mk tr p))"
    and "1 \<le> a" and "a \<le> N + 1"
  shows "walk_pages net mk [a..N] S (tr @ map (\<lambda>q. Request (mk q)) [1..a - 1])
           = (Inr (S \<union> (\<Union>p \<in> {a..N}. task_ids (next_page {} (page_response net mk tr p)))),
              tr @ map (\<lambda>q. Request (mk q)) [1..N])"
  using assms
proof (induction "nat (N + 1 - a)" arbitrary: a S)
  case 0
  then have "a = N + 1" by simp
  then show ?case by (simp add: ret_def)
next
  case (Suc d)
  then have le: "a \<le> N" by simp
  then have up: "[a..N] = a # [a + 1..N]" by (simp add: upto_rec1)
  from Suc.prems(1) le have "returned (next_page {} (page_response net mk tr a))" by simp
  then obtain T where T: "next_page {} (page_response net mk tr a) = Inr T"
    by (cases "next_page {} (page_response net mk tr a)") simp_all
  have tr: "(tr @ map (\<lambda>q. Request (mk q)) [1..a - 1]) @ [Request (mk a)]
          = tr @ map (\<lambda>q. Request (mk q)) [1..(a + 1) - 1]"
    using Suc.prems(2) by (simp add: upto_rec2)
  have np: "next_page S (page_response net mk tr a) = Inr (S \<union> T)"
    using next_page_union [of S] T by (simp add: bnd_def)
  have ih: "walk_pages net mk [a + 1..N] (S \<union> T)
             (tr @ map (\<lambda>q. Request (mk q)) [1..(a + 1) - 1])
           = (Inr ((S \<union> T) \<union> (\<Union>p \<in> {a + 1..N}.
                   task_ids (next_page {} (page_response net mk tr p)))),
              tr @ map (\<lambda>q. Request (mk q)) [1..N])"
    using Suc.hyps(1) [of "a + 1" "S \<union> T"] Suc.hyps(2) Suc.prems by simp
  have s: "{a..N} = insert a {a + 1..N}" using le by auto
  show ?case
    using np ih tr T
    by (simp add: up andthen_def fetch_def lift_def page_response_def s Un_assoc)
qed

text \<open>
  A walk in which no page raises: when the first page reports \<open>N \<ge> 1\<close> pages, the pages
  \<open>1..N\<close> are requested once each, in order, and the result is the union of what the pages
  give, a page that fails the test giving nothing.
\<close>

lemma paginate_returned:
  assumes "first_page (net tr (mk 1)) = Inr (Some (S, JInt N))" and "1 \<le> N"
    and "\<forall>p \<in> {2..N}. returned (next_page {} (page_response net mk tr p))"
  shows "paginate net mk tr
           = (Inr (S \<union> (\<Union>p \<in> {2..N}. task_ids (next_page {} (page_response net mk tr p)))),
              tr @ map (\<lambda>q. Request (mk q)) [1..N])"
proof -
  have one: "[1..2 - 1] = [1::int]" by (simp add: upto_rec1)
  have "walk_pages net mk [2..N] S (tr @ map (\<lambda>q. Request (mk q)) [1..2 - 1])
           = (Inr (S \<union> (\<Union>p \<in> {2..N}. task_ids (next_page {} (page_response net mk tr p)))),
              tr @ map (\<lambda>q. Request (mk q)) [1..N])"
    using walk_pages_returned [OF assms(3), of S] assms(2) by simp
  then show ?thesis
    using assms(1) by (simp add: paginate_def andthen_def fetch_def lift_def one)
qed

lemma paginate_no_first_page:
  assumes "first_page (net tr (mk 1)) = Inr None"
  shows "paginate net mk tr = (Inr {}, tr @ [Request (mk 1)])"
  using assms by (simp add: paginate_def andthen_def fetch_def lift_def ret_def)

lemma skipped_pages:
  "next_page S JNull = Inr S"
  "''data'' \<notin> set (map fst kvs) \<Longrightarrow> next_page S (JDict kvs) = Inr S"
  "first_page JNull = Inr None"
  "''data'' \<notin> set (map fst kvs) \<Longrightarrow> first_page (JDict kvs) = Inr None"
  by (simp_all add: next_page_def first_page_def has_goods_def bnd_def)


text \<open>
  Claim C2 does not hold of the code. A response with status 200 and an HTML content type
  is handed to the walker as text. When that text contains the word \<^verbatim>\<open>data\<close>, the page
  test subscripts a string and raises \<^verbatim>\<open>TypeError\<close>: a walk of three pages whose second
  page is such a text ends with the exception after two requests and returns no
  identifiers, while the same walk with \<^verbatim>\<open>None\<close> for the second page makes three
  requests and returns the identifiers of the pages 1 and 3.
\<close>

theorem html_page_aborts_walk:
  "fst (make_request (cfg_retries 3) (always html_reply) api_url None) = JStr html_text
   \<and> process_simple_pagination html_on_page_2 ''dell'' 80089 (JInt 3) []
       = (Inl TypeError,
          [Request (Catalog_url 1 ''dell'' None None 80089),
           Request (Catalog_url 2 ''dell'' None None 80089)])
   \<and> process_simple_pagination none_on_page_2 ''dell'' 80089 (JInt 3) []
       = (Inr {JInt 1, JInt 2, JInt 3},
          [Request (Catalog_url 1 ''dell'' None None 80089),
           Request (Catalog_url 2 ''dell'' None None 80089),
           Request (Catalog_url 3 ''dell'' None None 80089)])"
  by code_simp

section \<open>The entry loop at concrete categories\<close>

lemma monitors_category: "category_name_and_id monitors_url = Some (''Monitors'', 80089)"
  by code_simp

lemma notebooks_category: "category_name_and_id notebooks_url = Some (''Notebooks'', 80004)"
  by code_simp

lemma no_category: "category_name_and_id not_a_category = None"
  by code_simp

text \<open>
  Claim C9 does not hold of the code. With two categories, the first of which yields no
  identifiers, \<^verbatim>\<open>start\<close> returns after the first and never collects the second. An
  exception in the first category, or an address that is no category, leaves the second
  one processed.
\<close>

theorem start_stops_on_empty_ids:
  "start nothing_for_monitors stages_ok [monitors_url, notebooks_url]
     = [Collecting 80089, No_ids]
   \<and> start failure_for_monitors stages_ok [monitors_url, notebooks_url]
     = [Collecting 80089, Critical ValueError, Collecting 80004, Completed ''Notebooks'']
   \<and> start nothing_for_monitors stages_ok [not_a_category, notebooks_url]
     = [Skipped not_a_category, Collecting 80004, Completed ''Notebooks'']"
  by (simp add: start_def monitors_category notebooks_category no_category
      nothing_for_monitors_def failure_for_monitors_def stages_ok_def)

section \<open>What the methods append to the trace\<close>

named_theorems emits_intros

lemma emits_ret [emits_intros]: "emits P (ret v)"
  by (simp add: emits_def ret_def)

lemma emits_lift [emits_intros]: "emits P (lift x)"
  by (simp add: emits_def lift_def)

lemma emits_fetch [emits_intros]: "P (Request u) \<Longrightarrow> emits P (fetch net u)"
  by (simp add: emits_def fetch_def)

lemma emits_info [emits_intros]: "P (Info m) \<Longrightarrow> emits P (info m)"
  by (simp add: emits_def info_def)

lemma emits_andthen [emits_intros]:
  assumes "emits P m" and "\<And>x. emits P (f x)"
  shows "emits P (andthen m f)"
  unfolding emits_def
proof
  fix tr
  obtain r tr1 where m: "m tr = (r, tr1)" by (cases "m tr")
  from assms(1) have "\<exists>ev. snd (m tr) = tr @ ev \<and> list_all P ev"
    unfolding emits_def by blast
  with m obtain ev1 where e1: "tr1 = tr @ ev1" "list_all P ev1" by auto
  show "\<exists>ev. snd (andthen m f tr) = tr @ ev \<and> list_all P ev"
  proof (cases r)
    case (Inl e)
    with m e1 show ?thesis by (simp add: andthen_def)
  next
    case (Inr x)
    from assms(2) [of x] have "\<exists>ev. snd (f x tr1) = tr1 @ ev \<and> list_all P ev"
      unfolding emits_def by blast
    then obtain ev2 where "snd (f x tr1) = tr1 @ ev2" "list_all P ev2" by auto
    with m e1 Inr show ?thesis by (simp add: andthen_def)
  qed
qed

lemma emits_if [emits_intros]:
  "(c \<Longrightarrow> emits P a) \<Longrightarrow> (\<not> c \<Longrightarrow> emits P b) \<Longrightarrow> emits P (if c then a else b)"
  by simp

lemma emits_walk_pages [emits_intros]:
  assumes "\<And>u. P (Request u)"
  shows "emits P (walk_pages net mk ps S)"
  by (induction ps arbitrary: S) (auto intro!: emits_intros assms)

lemma emits_paginate [emits_intros]:
  assumes "\<And>u. P (Request u)"
  shows "emits P (paginate net mk)"
  unfolding paginate_def
  by (auto intro!: emits_intros assms split: option.split prod.split)

lemma emits_walkers [emits_intros]:
  assumes "\<And>u. P (Request u)"
  shows "emits P (process_simple_pagination net b c q)"
    and "emits P (process_with_sort net b c q s)"
    and "emits P (process_single_filter net b c fid fv)"
    and "emits P (process_filter_sort_combo net b c fid fv s)"
  unfolding process_simple_pagination_def process_with_sort_def process_single_filter_def
    process_filter_sort_combo_def
  by (auto intro!: emits_intros assms)


lemma emits_filter_lookups [emits_intros]:
  assumes "\<And>u. P (Request u)"
  shows "emits P (get_filter_id_by_name net b c f)"
    and "emits P (get_filter_values net b c fid)"
  unfolding get_filter_id_by_name_def get_filter_values_def
  by (auto intro!: emits_intros assms)

lemma emits_combo_loop [emits_intros]:
  assumes "\<And>u. P (Request u)"
  shows "emits P (combo_loop net b c fid v sorts S)"
  by (induction sorts arbitrary: S) (auto intro!: emits_intros assms)

lemma emits_values_sort_loop [emits_intros]:
  assumes "\<And>u. P (Request u)"
  shows "emits P (values_sort_loop net b c fid vs sorts S)"
  by (induction vs arbitrary: S) (auto intro!: emits_intros assms)

lemma emits_values_loop [emits_intros]:
  assumes "\<And>u. P (Request u)"
  shows "emits P (values_loop net b c fid vs S)"
  by (induction vs arbitrary: S) (auto intro!: emits_intros assms)

lemma emits_process_with_filters_and_sort [emits_intros]:
  assumes "\<And>u. P (Request u)"
  shows "emits P (process_with_filters_and_sort net b c q f sl)"
  unfolding process_with_filters_and_sort_def
  by (auto intro!: emits_intros assms split: option.split)

lemma emits_sorts_loop [emits_intros]:
  assumes "\<And>u. P (Request u)"
  shows "emits P (sorts_loop net b c q sorts S)"
  by (induction sorts arbitrary: S) (auto intro!: emits_intros assms)

lemma emits_process_default_parsing [emits_intros]:
  assumes "\<And>u. P (Request u)"
  shows "emits P (process_default_parsing net b c q sl)"
  unfolding process_default_parsing_def
  by (auto intro!: emits_intros assms)

lemma emits_filters_loop [emits_intros]:
  assumes "\<And>u. P (Request u)" and "\<And>f. P (Info (Filter_collected f))"
  shows "emits P (filters_loop net b c q fs sl acc)"
  by (induction fs arbitrary: acc) (auto intro!: emits_intros assms)

lemma emits_filter_phase [emits_intros]:
  assumes "\<And>u. P (Request u)" and "\<And>f. P (Info (Filter_collected f))"
  shows "emits P (filter_phase net b c q fs sl)"
  unfolding filter_phase_def
  by (auto intro!: emits_intros assms)

lemma emitsD:
  assumes "emits P m" and "m tr = (r, tr')"
  obtains ev where "tr' = tr @ ev" and "list_all P ev"
proof -
  from assms(1) have "\<exists>ev. snd (m tr) = tr @ ev \<and> list_all P ev"
    unfolding emits_def by blast
  with assms(2) that show ?thesis by auto
qed

text \<open>The two variables of the loop over the filters agree.\<close>

lemma filters_loop_found:
  assumes "filters_loop net b c q fs sl (S, found) tr = (Inr (S', found'), tr')"
    and "found \<longleftrightarrow> S \<noteq> {}"
  shows "found' \<longleftrightarrow> S' \<noteq> {}"
  using assms
proof (induction fs arbitrary: S found tr)
  case Nil
  then show ?case by (auto simp: ret_def)
next
  case (Cons f fs)
  obtain r tr1 where p: "process_with_filters_and_sort net b c q f sl tr = (r, tr1)"
    by (cases "process_with_filters_and_sort net b c q f sl tr")
  show ?case
  proof (cases r)
    case (Inl e)
    with Cons.prems(1) p show ?thesis by (simp add: andthen_def)
  next
    case (Inr ids)
    show ?thesis
    proof (cases "ids = {}")
      case True
      with Cons.prems p Inr
      have "filters_loop net b c q fs sl (S, found) tr1 = (Inr (S', found'), tr')"
        by (simp add: andthen_def)
      with Cons.IH Cons.prems(2) show ?thesis by blast
    next
      case False
      with Cons.prems p Inr
      have "filters_loop net b c q fs sl (S \<union> ids, True) (tr1 @ [Info (Filter_collected f)])
              = (Inr (S', found'), tr')"
        by (simp add: andthen_def info_def)
      moreover have "True \<longleftrightarrow> S \<union> ids \<noteq> {}" using False by simp
      ultimately show ?thesis using Cons.IH by blast
    qed
  qed
qed

lemma filter_phase_found:
  assumes "filter_phase net b c q filters sl tr = (Inr (S, found), tr')"
  shows "found \<longleftrightarrow> S \<noteq> {}"
proof (cases "given filters")
  case True
  with assms filters_loop_found [of net b c q "items_of filters" sl "{}" False tr S found tr']
  show ?thesis by (simp add: filter_phase_def)
next
  case False
  with assms show ?thesis by (simp add: filter_phase_def ret_def)
qed


lemma not_fallback_set: "list_all not_fallback ev \<Longrightarrow> Info Fallback_started \<notin> set ev"
  by (auto simp: list_all_iff not_fallback_def)

lemma brand_without_default_parse:
  "get_product_ids_for_brand net brand c filters sl False tr
     = (case filter_phase net (brand_option_value_name brand) c (brand_products_quantity brand)
              filters sl (tr @ [Info Brand_started]) of
          (Inl e, tr1) \<Rightarrow> (Inl e, tr1)
        | (Inr acc, tr1) \<Rightarrow>
            after_filters net (brand_option_value_name brand) c (brand_products_quantity brand)
              filters sl acc tr1)"
  by (auto simp: get_product_ids_for_brand_def after_filters_def andthen_def info_def Let_def
      split: prod.splits sum.splits)

lemma after_filters_quiet:
  assumes "\<not> (given filters \<and> \<not> snd acc)"
  shows "emits not_fallback (after_filters net b c q filters sl acc)"
  using assms unfolding after_filters_def
  by (auto intro!: emits_intros simp: not_fallback_def)

lemma after_filters_fallback:
  assumes "given filters" and "\<not> snd acc"
  shows "Info Fallback_started \<in> set (snd (after_filters net b c q filters sl acc tr))"
proof -
  let ?rest = "\<lambda>u::unit. andthen (process_default_parsing net b c q sl) (\<lambda>fallback_ids.
        andthen (info Fallback_collected) (\<lambda>_.
        andthen (info Brand_total) (\<lambda>_. ret (fst acc \<union> fallback_ids))))"
  have "emits (\<lambda>e. True) (?rest ())" by (auto intro!: emits_intros)
  then obtain ev where "snd (?rest () (tr @ [Info Fallback_started]))
      = (tr @ [Info Fallback_started]) @ ev"
    unfolding emits_def by blast
  moreover have "after_filters net b c q filters sl acc tr = ?rest () (tr @ [Info Fallback_started])"
    using assms by (simp add: after_filters_def andthen_def info_def)
  ultimately show ?thesis by simp
qed

section \<open>Properties of \<^verbatim>\<open>get_product_ids_for_brand\<close>\<close>

text \<open>
  Claim C10. With sort orders requested, no filters and \<^verbatim>\<open>default_parse\<close> off, the brand
  yields the empty set and the only events are the two log lines: no address is fetched.
\<close>

theorem sort_only_collects_nothing:
  assumes "\<not> given filters" and "given sort_list"
  shows "get_product_ids_for_brand net brand category_id filters sort_list False tr
           = (Inr {}, tr @ [Info Brand_started, Info Brand_total])"
  using assms
  by (simp add: get_product_ids_for_brand_def filter_phase_def andthen_def info_def ret_def)

theorem sort_only_collects_nothing_witness:
  "\<not> given None \<and> given (Some [''cheap'', ''rank''])
   \<and> get_product_ids_for_brand silent dell 80089 None (Some [''cheap'', ''rank'']) False []
       = (Inr {}, [Info Brand_started, Info Brand_total])"
  using sort_only_collects_nothing [of None "Some [''cheap'', ''rank'']" silent dell 80089 "[]"]
  by simp



text \<open>
  With \<^verbatim>\<open>default_parse\<close> off, the log line of the fallback is written exactly when filters
  were requested and the loop over them ends with an empty set and its flag down.
\<close>

lemma fallback_logged_iff:
  assumes "Info Fallback_started \<notin> set tr"
  shows "(Info Fallback_started
            \<in> set (snd (get_product_ids_for_brand net brand category_id filters sort_list False tr))
          \<longleftrightarrow> given filters
              \<and> fst (filter_phase net (brand_option_value_name brand) category_id
                        (brand_products_quantity brand) filters sort_list
                        (tr @ [Info Brand_started])) = Inr ({}, False))
         \<and> (\<forall>S found tr1.
               filter_phase net (brand_option_value_name brand) category_id
                 (brand_products_quantity brand) filters sort_list (tr @ [Info Brand_started])
                 = (Inr (S, found), tr1) \<and> S \<noteq> {}
               \<longrightarrow> get_product_ids_for_brand net brand category_id filters sort_list False tr
                     = (Inr S, tr1 @ [Info Brand_total]))"
proof -
  let ?b = "brand_option_value_name brand" and ?q = "brand_products_quantity brand"
  obtain r tr1 where ph: "filter_phase net ?b category_id ?q filters sort_list
      (tr @ [Info Brand_started]) = (r, tr1)"
    by (cases "filter_phase net ?b category_id ?q filters sort_list (tr @ [Info Brand_started])")
  have "emits not_fallback (filter_phase net ?b category_id ?q filters sort_list)"
    by (auto intro!: emits_intros simp: not_fallback_def)
  from this ph obtain ev where "tr1 = (tr @ [Info Brand_started]) @ ev"
    "list_all not_fallback ev"
    by (rule emitsD)
  with assms have q1: "Info Fallback_started \<notin> set tr1"
    using not_fallback_set [of ev] by simp
  have first: "Info Fallback_started
            \<in> set (snd (get_product_ids_for_brand net brand category_id filters sort_list False tr))
          \<longleftrightarrow> given filters \<and> r = Inr ({}, False)"
  proof (cases r)
    case (Inl e)
    with ph q1 show ?thesis by (simp add: brand_without_default_parse)
  next
    case (Inr acc)
    obtain S found where acc: "acc = (S, found)" by (cases acc)
    with ph Inr have fd: "found \<longleftrightarrow> S \<noteq> {}" using filter_phase_found by blast
    have run: "get_product_ids_for_brand net brand category_id filters sort_list False tr
        = after_filters net ?b category_id ?q filters sort_list acc tr1"
      using ph Inr by (simp add: brand_without_default_parse)
    show ?thesis
    proof (cases "given filters \<and> \<not> found")
      case True
      with acc have "Info Fallback_started
          \<in> set (snd (after_filters net ?b category_id ?q filters sort_list acc tr1))"
        using after_filters_fallback [of filters acc] by simp
      with True run Inr acc fd show ?thesis by auto
    next
      case False
      with acc have "emits not_fallback (after_filters net ?b category_id ?q filters sort_list acc)"
        using after_filters_quiet [of filters acc] by simp
      then obtain ev' where "snd (after_filters net ?b category_id ?q filters sort_list acc tr1)
           = tr1 @ ev'" "list_all not_fallback ev'"
        unfolding emits_def by blast
      with q1 have "Info Fallback_started
          \<notin> set (snd (after_filters net ?b category_id ?q filters sort_list acc tr1))"
        using not_fallback_set [of ev'] by simp
      with False run Inr acc fd show ?thesis by auto
    qed
  qed
  have second: "\<forall>S found tr1'.
               filter_phase net ?b category_id ?q filters sort_list (tr @ [Info Brand_started])
                 = (Inr (S, found), tr1') \<and> S \<noteq> {}
               \<longrightarrow> get_product_ids_for_brand net brand category_id filters sort_list False tr
                     = (Inr S, tr1' @ [Info Brand_total])"
  proof (intro allI impI)
    fix S found tr1'
    assume a: "filter_phase net ?b category_id ?q filters sort_list (tr @ [Info Brand_started])
                 = (Inr (S, found), tr1') \<and> S \<noteq> {}"
    then have fd: "found" using filter_phase_found by blast
    have g: "given filters"
    proof (rule ccontr)
      assume "\<not> given filters"
      with a show False by (auto simp: filter_phase_def ret_def)
    qed
    from a fd g show "get_product_ids_for_brand net brand category_id filters sort_list False tr
                     = (Inr S, tr1' @ [Info Brand_total])"
      by (simp add: brand_without_default_parse after_filters_def andthen_def info_def ret_def)
  qed
  from first second ph show ?thesis by simp
qed

text \<open>A filter that no lookup finds contributes nothing: the loop leaves its variables alone.\<close>

lemma no_match_no_ids:
  assumes "\<forall>f \<in> set fs. \<forall>tr'. fst (get_filter_id_by_name net b c f tr') = Inr None"
  shows "fst (filters_loop net b c q fs sl acc tr) = Inr acc"
  using assms
proof (induction fs arbitrary: tr)
  case Nil
  then show ?case by (simp add: ret_def)
next
  case (Cons f fs)
  obtain r tr1 where g: "get_filter_id_by_name net b c f tr = (r, tr1)"
    by (cases "get_filter_id_by_name net b c f tr")
  with Cons.prems have "r = Inr None" by (metis fst_conv list.set_intros(1))
  with g have "process_with_filters_and_sort net b c q f sl tr = (Inr {}, tr1)"
    by (simp add: process_with_filters_and_sort_def andthen_def ret_def)
  then show ?case using Cons by (simp add: andthen_def)
qed

text \<open>
  The loop over the filters in terms of the sets its tasks return: the set it ends with is
  their union, and its flag is up exactly when one of them has an identifier.
\<close>

lemma filters_loop_tasks:
  "filters_loop net b c q fs sl acc tr
     = (case filter_task_sets net b c q fs sl tr of
          (Inl e, tr') \<Rightarrow> (Inl e, tr')
        | (Inr sets, tr') \<Rightarrow>
            (Inr (fst acc \<union> \<Union>(set sets), snd acc \<or> \<Union>(set sets) \<noteq> {}), tr'))"
proof (induction fs arbitrary: acc tr)
  case Nil
  then show ?case by (simp add: ret_def)
next
  case (Cons f fs)
  obtain r tr1 where p: "process_with_filters_and_sort net b c q f sl tr = (r, tr1)"
    by (cases "process_with_filters_and_sort net b c q f sl tr")
  show ?case
  proof (cases r)
    case (Inl e)
    with p show ?thesis by (simp add: andthen_def)
  next
    case (Inr ids)
    show ?thesis
    proof (cases "ids = {}")
      case True
      with p Inr Cons.IH [of acc tr1] show ?thesis
        by (simp add: andthen_def ret_def split: prod.splits sum.splits)
    next
      case False
      with p Inr Cons.IH [of "(fst acc \<union> ids, True)" "tr1 @ [Info (Filter_collected f)]"]
      show ?thesis
        by (auto simp: andthen_def ret_def info_def Un_assoc split: prod.splits sum.splits)
    qed
  qed
qed

lemma filter_phase_tasks:
  assumes "given filters"
  shows "filter_phase net b c q filters sl tr
     = (case filter_task_sets net b c q (items_of filters) sl tr of
          (Inl e, tr') \<Rightarrow> (Inl e, tr')
        | (Inr sets, tr') \<Rightarrow> (Inr (\<Union>(set sets), \<Union>(set sets) \<noteq> {}), tr'))"
  using assms filters_loop_tasks [of net b c q "items_of filters" sl "({}, False)" tr]
  by (simp add: filter_phase_def split: prod.splits sum.splits)

text \<open>
  Claim C3, as the code has it. With \<^verbatim>\<open>default_parse\<close> off, the fallback runs (its log
  line is written) if and only if filters were requested and the filter tasks returned
  without a single identifier. In that case the brand goes on with the default traversal,
  from the trace the filter tasks left, and returns what that traversal returns. When the
  filter tasks returned identifiers, the brand returns exactly their union and nothing
  follows the filter tasks but the closing log line.
\<close>

theorem fallback_iff_filter_tasks_empty:
  assumes "Info Fallback_started \<notin> set tr"
  shows "(Info Fallback_started
            \<in> set (snd (get_product_ids_for_brand net brand category_id filters sort_list False tr))
          \<longleftrightarrow> given filters
              \<and> (\<exists>sets. fst (filter_task_sets net (brand_option_value_name brand) category_id
                              (brand_products_quantity brand) (items_of filters) sort_list
                              (tr @ [Info Brand_started])) = Inr sets
                         \<and> \<Union>(set sets) = {}))
         \<and> (given filters \<longrightarrow>
              (\<forall>sets tr1.
                 filter_task_sets net (brand_option_value_name brand) category_id
                   (brand_products_quantity brand) (items_of filters) sort_list
                   (tr @ [Info Brand_started]) = (Inr sets, tr1)
                 \<longrightarrow> get_product_ids_for_brand net brand category_id filters sort_list False tr
                       = (if \<Union>(set sets) = {} then
                            (case process_default_parsing net (brand_option_value_name brand)
                                    category_id (brand_products_quantity brand) sort_list
                                    (tr1 @ [Info Fallback_started]) of
                               (Inl e, tr2) \<Rightarrow> (Inl e, tr2)
                             | (Inr fallback_ids, tr2) \<Rightarrow>
                                 (Inr fallback_ids,
                                  tr2 @ [Info Fallback_collected, Info Brand_total]))
                          else (Inr (\<Union>(set sets)), tr1 @ [Info Brand_total]))))"
proof -
  let ?b = "brand_option_value_name brand" and ?q = "brand_products_quantity brand"
  let ?tasks = "filter_task_sets net ?b category_id ?q (items_of filters) sort_list
                  (tr @ [Info Brand_started])"
  let ?phase = "filter_phase net ?b category_id ?q filters sort_list (tr @ [Info Brand_started])"
  have flag: "given filters \<Longrightarrow>
      (fst ?phase = Inr ({}, False)) = (\<exists>sets. fst ?tasks = Inr sets \<and> \<Union>(set sets) = {})"
  proof -
    assume g: "given filters"
    obtain r tr1 where t: "?tasks = (r, tr1)" by (cases ?tasks)
    show ?thesis
    proof (cases r)
      case (Inl e)
      with t g show ?thesis by (simp add: filter_phase_tasks)
    next
      case (Inr sets)
      with t g show ?thesis by (auto simp: filter_phase_tasks)
    qed
  qed
  have first: "Info Fallback_started
            \<in> set (snd (get_product_ids_for_brand net brand category_id filters sort_list False tr))
          \<longleftrightarrow> given filters \<and> (\<exists>sets. fst ?tasks = Inr sets \<and> \<Union>(set sets) = {})"
    using fallback_logged_iff [OF assms, of net brand category_id filters sort_list] flag
    by blast
  have second: "given filters \<longrightarrow>
              (\<forall>sets tr1. ?tasks = (Inr sets, tr1)
                 \<longrightarrow> get_product_ids_for_brand net brand category_id filters sort_list False tr
                       = (if \<Union>(set sets) = {} then
                            (case process_default_parsing net ?b category_id ?q sort_list
                                    (tr1 @ [Info Fallback_started]) of
                               (Inl e, tr2) \<Rightarrow> (Inl e, tr2)
                             | (Inr fallback_ids, tr2) \<Rightarrow>
                                 (Inr fallback_ids,
                                  tr2 @ [Info Fallback_collected, Info Brand_total]))
                          else (Inr (\<Union>(set sets)), tr1 @ [Info Brand_total])))"
  proof (intro impI allI)
    fix sets tr1
    assume g: "given filters" and t: "?tasks = (Inr sets, tr1)"
    then have ph: "?phase = (Inr (\<Union>(set sets), \<Union>(set sets) \<noteq> {}), tr1)"
      by (simp add: filter_phase_tasks)
    show "get_product_ids_for_brand net brand category_id filters sort_list False tr
                       = (if \<Union>(set sets) = {} then
                            (case process_default_parsing net ?b category_id ?q sort_list
                                    (tr1 @ [Info Fallback_started]) of
                               (Inl e, tr2) \<Rightarrow> (Inl e, tr2)
                             | (Inr fallback_ids, tr2) \<Rightarrow>
                                 (Inr fallback_ids,
                                  tr2 @ [Info Fallback_collected, Info Brand_total]))
                          else (Inr (\<Union>(set sets)), tr1 @ [Info Brand_total]))"
    proof (cases "\<Union>(set sets) = {}")
      case True
      with g ph show ?thesis
        by (simp add: brand_without_default_parse after_filters_def andthen_def info_def
            ret_def split: prod.splits sum.splits)
    next
      case False
      with g ph show ?thesis
        by (auto simp: brand_without_default_parse after_filters_def andthen_def info_def
            ret_def)
    qed
  qed
  from first second show ?thesis by blast
qed


theorem fallback_iff_filter_tasks_empty_witness:
  "Info Fallback_started \<notin> set []
   \<and> given (Some [''Color''])
   \<and> filter_task_sets sorted_net ''dell'' 80089 (JInt 3) [''Color''] None
         [Info Brand_started]
       = (Inr [{}], [Info Brand_started, Request (Catalog_url 1 ''dell'' None None 80089)])
   \<and> Info Fallback_started
        \<in> set (snd (get_product_ids_for_brand sorted_net dell 80089 (Some [''Color'']) None
                      False []))
   \<and> get_product_ids_for_brand sorted_net dell 80089 (Some [''Color'']) None False []
       = (Inr {JInt 1, JInt 2, JInt 3, JInt 4},
          [Info Brand_started, Request (Catalog_url 1 ''dell'' None None 80089),
           Info Fallback_started, Request (Catalog_url 1 ''dell'' None None 80089),
           Info Fallback_collected, Info Brand_total])
   \<and> filter_task_sets color_net ''dell'' 80089 (JInt 3) [''Color''] None
         [Info Brand_started]
       = (Inr [{JInt 1}],
          [Info Brand_started, Request (Catalog_url 1 ''dell'' None None 80089),
           Request (Catalog_url 1 ''dell'' None None 80089),
           Request (Catalog_url 1 ''dell'' (Some (''21'', JStr ''red'')) None 80089),
           Info (Filter_collected ''Color'')])
   \<and> get_product_ids_for_brand color_net dell 80089 (Some [''Color'']) None False []
       = (Inr {JInt 1},
          [Info Brand_started, Request (Catalog_url 1 ''dell'' None None 80089),
           Request (Catalog_url 1 ''dell'' None None 80089),
           Request (Catalog_url 1 ''dell'' (Some (''21'', JStr ''red'')) None 80089),
           Info (Filter_collected ''Color''), Info Brand_total])"
proof -
  have n: "brand_option_value_name dell = ''dell''" "brand_products_quantity dell = JInt 3"
    by (simp_all add: dell_def)
  have g: "given (Some [''Color''])" by simp
  have i: "items_of (Some [''Color'']) = [''Color'']" by simp
  have p: "filter_task_sets sorted_net ''dell'' 80089 (JInt 3) [''Color''] None
         ([] @ [Info Brand_started])
       = (Inr [{}], [Info Brand_started, Request (Catalog_url 1 ''dell'' None None 80089)])"
    by code_simp
  have d: "process_default_parsing sorted_net ''dell'' 80089 (JInt 3) None
         ([Info Brand_started, Request (Catalog_url 1 ''dell'' None None 80089)]
            @ [Info Fallback_started])
       = (Inr {JInt 1, JInt 2, JInt 3, JInt 4},
          [Info Brand_started, Request (Catalog_url 1 ''dell'' None None 80089),
           Info Fallback_started, Request (Catalog_url 1 ''dell'' None None 80089)])"
    by code_simp
  have q: "filter_task_sets color_net ''dell'' 80089 (JInt 3) [''Color''] None
         ([] @ [Info Brand_started])
       = (Inr [{JInt 1}],
          [Info Brand_started, Request (Catalog_url 1 ''dell'' None None 80089),
           Request (Catalog_url 1 ''dell'' None None 80089),
           Request (Catalog_url 1 ''dell'' (Some (''21'', JStr ''red'')) None 80089),
           Info (Filter_collected ''Color'')])"
    by code_simp
  have e: "Info Fallback_started \<notin> set []" by simp
  note t1 = fallback_iff_filter_tasks_empty
    [OF e, of sorted_net dell 80089 "Some [''Color'']" None, unfolded n i,
     THEN conjunct2, THEN mp, OF g, THEN spec, THEN spec, THEN mp, OF p]
  note t2 = fallback_iff_filter_tasks_empty
    [OF e, of color_net dell 80089 "Some [''Color'']" None, unfolded n i,
     THEN conjunct2, THEN mp, OF g, THEN spec, THEN spec, THEN mp, OF q]
  from t1 d have b: "get_product_ids_for_brand sorted_net dell 80089 (Some [''Color''])
      None False []
       = (Inr {JInt 1, JInt 2, JInt 3, JInt 4},
          [Info Brand_started, Request (Catalog_url 1 ''dell'' None None 80089),
           Info Fallback_started, Request (Catalog_url 1 ''dell'' None None 80089),
           Info Fallback_collected, Info Brand_total])"
    by simp
  then have a: "Info Fallback_started
        \<in> set (snd (get_product_ids_for_brand sorted_net dell 80089 (Some [''Color'']) None
                      False []))"
    by simp
  from t2 have c: "get_product_ids_for_brand color_net dell 80089 (Some [''Color''])
      None False []
       = (Inr {JInt 1},
          [Info Brand_started, Request (Catalog_url 1 ''dell'' None None 80089),
           Request (Catalog_url 1 ''dell'' None None 80089),
           Request (Catalog_url 1 ''dell'' (Some (''21'', JStr ''red'')) None 80089),
           Info (Filter_collected ''Color''), Info Brand_total])"
    by simp
  from p q a b c show ?thesis by simp
qed

text \<open>
  The claim as the specification words it fails: here the filter \<^verbatim>\<open>Color\<close> is found for
  the brand, with a value, but the listing restricted to that value cannot be fetched;
  the filter task returns no identifier and the fallback traversal runs.
\<close>

theorem fallback_after_found_filter_counterexample:
  "fst (get_filter_id_by_name color_unfetched_net ''dell'' 80089 ''Color'' [Info Brand_started])
     = Inr (Some ''21'')
   \<and> get_product_ids_for_brand color_unfetched_net dell 80089 (Some [''Color'']) None False []
       = (Inr {JInt 1, JInt 2},
          [Info Brand_started, Request (Catalog_url 1 ''dell'' None None 80089),
           Request (Catalog_url 1 ''dell'' None None 80089),
           Request (Catalog_url 1 ''dell'' (Some (''21'', JStr ''red'')) None 80089),
           Info Fallback_started, Request (Catalog_url 1 ''dell'' None None 80089),
           Info Fallback_collected, Info Brand_total])"
  by code_simp


text \<open>
  With \<^verbatim>\<open>default_parse\<close> on and two sort orders, when the filter tasks found nothing and
  the walk for each order returns a set, the brand runs exactly these two walks, the
  second from where the first ended, and returns the union of their sets.
\<close>

lemma default_parse_two_sorts:
  assumes "filter_phase net (brand_option_value_name brand) category_id
             (brand_products_quantity brand) filters (Some [s1, s2]) (tr @ [Info Brand_started])
           = (Inr ({}, False), tr1)"
    and "process_with_sort net (brand_option_value_name brand) category_id
             (brand_products_quantity brand) s1 (tr1 @ [Info Default_parse_started])
           = (Inr A, tr2)"
    and "process_with_sort net (brand_option_value_name brand) category_id
             (brand_products_quantity brand) s2 tr2
           = (Inr B, tr3)"
  shows "get_product_ids_for_brand net brand category_id filters (Some [s1, s2]) True tr
           = (Inr (A \<union> B), tr3 @ [Info Default_parse_collected, Info Brand_total])"
  using assms
  by (simp add: get_product_ids_for_brand_def process_default_parsing_def andthen_def info_def
      ret_def Let_def)



text \<open>
  Claim C7 does not hold of the code. The brand has no filter \<^verbatim>\<open>Color\<close>, \<^verbatim>\<open>default_parse\<close>
  is on and the sort orders are \<^verbatim>\<open>cheap\<close> and \<^verbatim>\<open>rank\<close>. When the first page of the order
  \<^verbatim>\<open>cheap\<close> comes back as an HTML text that contains the word \<^verbatim>\<open>data\<close>, the first walk
  raises \<^verbatim>\<open>TypeError\<close> after its one request, the brand ends with that exception and the
  walk for \<^verbatim>\<open>rank\<close> never runs. With listings that are JSON the brand runs the two walks,
  one per order, and returns the union of their sets.
\<close>

theorem html_page_aborts_default_parse:
  "fst (get_filter_id_by_name html_for_cheap_net ''dell'' 80089 ''Color'' [Info Brand_started])
     = Inr None
   \<and> get_product_ids_for_brand html_for_cheap_net dell 80089 (Some [''Color''])
         (Some [''cheap'', ''rank'']) True []
     = (Inl TypeError,
        [Info Brand_started, Request (Catalog_url 1 ''dell'' None None 80089),
         Info Default_parse_started,
         Request (Catalog_url 1 ''dell'' None (Some ''cheap'') 80089)])
   \<and> get_product_ids_for_brand sorted_net dell 80089 (Some [''Color''])
         (Some [''cheap'', ''rank'']) True []
     = (Inr {JInt 1, JInt 2, JInt 3, JInt 4, JInt 5},
        [Info Brand_started, Request (Catalog_url 1 ''dell'' None None 80089),
         Info Default_parse_started,
         Request (Catalog_url 1 ''dell'' None (Some ''cheap'') 80089),
         Request (Catalog_url 2 ''dell'' None (Some ''cheap'') 80089),
         Request (Catalog_url 1 ''dell'' None (Some ''rank'') 80089),
         Info Default_parse_collected, Info Brand_total])"
  by code_simp

section \<open>Properties of the scheduler\<close>

named_theorems stateless_intros

lemma stateless_ret [stateless_intros]: "stateless (ret v)"
  by (simp add: stateless_def ret_def)

lemma stateless_lift [stateless_intros]: "stateless (lift x)"
  by (simp add: stateless_def lift_def)

lemma stateless_info [stateless_intros]: "stateless (info m)"
  by (simp add: stateless_def info_def)

lemma stateless_fetch [stateless_intros]: "stateless (fetch (\<lambda>tr. srv) u)"
  by (simp add: stateless_def fetch_def)

lemma stateless_andthen [stateless_intros]:
  assumes "stateless m" and "\<And>x. stateless (f x)"
  shows "stateless (andthen m f)"
  unfolding stateless_def
proof
  fix tr
  obtain r e where m0: "m [] = (r, e)" by (cases "m []")
  with assms(1) have mt: "m tr = (r, tr @ e)" unfolding stateless_def by (metis fst_conv snd_conv)
  show "andthen m f tr = (fst (andthen m f []), tr @ snd (andthen m f []))"
  proof (cases r)
    case (Inl x)
    with m0 mt show ?thesis by (simp add: andthen_def)
  next
    case (Inr x)
    from assms(2) [of x] have a: "f x (tr @ e) = (fst (f x []), (tr @ e) @ snd (f x []))"
      and b: "f x e = (fst (f x []), e @ snd (f x []))"
      unfolding stateless_def by blast+
    with m0 mt Inr show ?thesis by (simp add: andthen_def)
  qed
qed

lemma stateless_if [stateless_intros]:
  "(c \<Longrightarrow> stateless a) \<Longrightarrow> (\<not> c \<Longrightarrow> stateless b) \<Longrightarrow> stateless (if c then a else b)"
  by simp

lemma stateless_walk_pages [stateless_intros]:
  "stateless (walk_pages (\<lambda>tr. srv) mk ps S)"
  by (induction ps arbitrary: S) (auto intro!: stateless_intros)

lemma stateless_paginate [stateless_intros]: "stateless (paginate (\<lambda>tr. srv) mk)"
  unfolding paginate_def
  by (auto intro!: stateless_intros split: option.split prod.split)

lemma stateless_walkers [stateless_intros]:
  "stateless (process_simple_pagination (\<lambda>tr. srv) b c q)"
  "stateless (process_with_sort (\<lambda>tr. srv) b c q s)"
  "stateless (process_single_filter (\<lambda>tr. srv) b c fid fv)"
  "stateless (process_filter_sort_combo (\<lambda>tr. srv) b c fid fv s)"
  unfolding process_simple_pagination_def process_with_sort_def process_single_filter_def
    process_filter_sort_combo_def
  by (auto intro!: stateless_intros)

lemma stateless_filter_lookups [stateless_intros]:
  "stateless (get_filter_id_by_name (\<lambda>tr. srv) b c f)"
  "stateless (get_filter_values (\<lambda>tr. srv) b c fid)"
  unfolding get_filter_id_by_name_def get_filter_values_def
  by (auto intro!: stateless_intros)

lemma stateless_combo_loop [stateless_intros]:
  "stateless (combo_loop (\<lambda>tr. srv) b c fid v sorts S)"
  by (induction sorts arbitrary: S) (auto intro!: stateless_intros)

lemma stateless_values_sort_loop [stateless_intros]:
  "stateless (values_sort_loop (\<lambda>tr. srv) b c fid vs sorts S)"
  by (induction vs arbitrary: S) (auto intro!: stateless_intros)

lemma stateless_values_loop [stateless_intros]:
  "stateless (values_loop (\<lambda>tr. srv) b c fid vs S)"
  by (induction vs arbitrary: S) (auto intro!: stateless_intros)

lemma stateless_process_with_filters_and_sort [stateless_intros]:
  "stateless (process_with_filters_and_sort (\<lambda>tr. srv) b c q f sl)"
  unfolding process_with_filters_and_sort_def
  by (auto intro!: stateless_intros split: option.split)

lemma stateless_sorts_loop [stateless_intros]:
  "stateless (sorts_loop (\<lambda>tr. srv) b c q sorts S)"
  by (induction sorts arbitrary: S) (auto intro!: stateless_intros)

lemma stateless_process_default_parsing [stateless_intros]:
  "stateless (process_default_parsing (\<lambda>tr. srv) b c q sl)"
  unfolding process_default_parsing_def
  by (auto intro!: stateless_intros)

lemma stateless_filters_loop [stateless_intros]:
  "stateless (filters_loop (\<lambda>tr. srv) b c q fs sl acc)"
  by (induction fs arbitrary: acc) (auto intro!: stateless_intros)

lemma stateless_filter_phase [stateless_intros]:
  "stateless (filter_phase (\<lambda>tr. srv) b c q fs sl)"
  unfolding filter_phase_def
  by (auto intro!: stateless_intros)

lemma stateless_brand [stateless_intros]:
  "stateless (get_product_ids_for_brand (\<lambda>tr. srv) brand c fs sl dp)"
  unfolding get_product_ids_for_brand_def Let_def
  by (auto intro!: stateless_intros split: prod.split)

lemma brand_task_run:
  "fst (get_product_ids_for_brand (\<lambda>tr. srv) brand c fs sl dp tr) = brand_task srv brand c fs sl dp"
  using stateless_brand [of srv brand c fs sl dp]
  unfolding stateless_def brand_task_def by (metis fst_conv)

lemma merge_completed_union: "merge_completed rs S = S \<union> (\<Union>r \<in> set rs. task_ids r)"
proof (induction rs arbitrary: S)
  case Nil
  then show ?case by simp
next
  case (Cons r rs)
  then show ?case by (cases r) auto
qed

lemma brands_loop_union:
  assumes "\<forall>(name, brand) \<in> set bs. returned (brand_task srv brand c fs sl dp)"
  shows "fst (brands_loop (\<lambda>tr. srv) bs c fs sl dp S tr)
           = Inr (S \<union> (\<Union>(name, brand) \<in> set bs. task_ids (brand_task srv brand c fs sl dp)))"
  using assms
proof (induction bs arbitrary: S tr)
  case Nil
  then show ?case by (simp add: ret_def)
next
  case (Cons nb bs)
  obtain name brand where nb: "nb = (name, brand)" by (cases nb)
  obtain r tr1 where g: "get_product_ids_for_brand (\<lambda>tr. srv) brand c fs sl dp tr = (r, tr1)"
    by (cases "get_product_ids_for_brand (\<lambda>tr. srv) brand c fs sl dp tr")
  then have rt: "r = brand_task srv brand c fs sl dp"
    using brand_task_run [of srv brand c fs sl dp tr] by simp
  with Cons.prems nb have "returned r" by simp
  then obtain ids where ids: "r = Inr ids" by (cases r) simp_all
  have "fst (brands_loop (\<lambda>tr. srv) bs c fs sl dp (S \<union> ids) tr1)
           = Inr ((S \<union> ids) \<union> (\<Union>(name, brand) \<in> set bs. task_ids (brand_task srv brand c fs sl dp)))"
    using Cons.IH Cons.prems by simp
  with nb g ids rt show ?case by (simp add: andthen_def Un_assoc)
qed

text \<open>
  Claim C1, as the code has it. For a remote side that answers an address the same way
  whenever asked, a pool with at least one worker and any order of completion, the
  scheduler returns the union, over the brands, of the set each brand's task returns; a
  task that raises adds nothing. When no task raises, the variant without threads returns
  the same set.
\<close>

theorem scheduler_merges_union:
  assumes "0 < max_workers" and "mset completed = mset brands_data"
  shows "collect_product_ids_with_workers srv brands_data category_id max_workers filters
             sort_list default_parse completed
           = Inr (\<Union>(name, brand) \<in> set brands_data.
                    task_ids (brand_task srv brand category_id filters sort_list default_parse))
         \<and> ((\<forall>(name, brand) \<in> set brands_data.
                returned (brand_task srv brand category_id filters sort_list default_parse))
            \<longrightarrow> fst (get_all_product_ids_for_category (\<lambda>tr. srv) brands_data category_id filters
                        sort_list default_parse tr)
                = collect_product_ids_with_workers srv brands_data category_id max_workers
                    filters sort_list default_parse completed)"
proof -
  let ?t = "\<lambda>brand. brand_task srv brand category_id filters sort_list default_parse"
  have s: "set completed = set brands_data" using assms(2) by (metis set_mset_mset)
  have 1: "collect_product_ids_with_workers srv brands_data category_id max_workers filters
             sort_list default_parse completed
           = Inr (\<Union>(name, brand) \<in> set brands_data. task_ids (?t brand))"
  proof (cases "brands_data = []")
    case True
    then show ?thesis by (simp add: collect_product_ids_with_workers_def)
  next
    case False
    have "(\<Union>r \<in> set (map (\<lambda>(name, brand). ?t brand) completed). task_ids r)
         = (\<Union>(name, brand) \<in> set brands_data. task_ids (?t brand))"
      using s by (auto simp: case_prod_beta)
    with False assms(1) show ?thesis
      by (simp add: collect_product_ids_with_workers_def merge_completed_union)
  qed
  have 2: "(\<forall>(name, brand) \<in> set brands_data. returned (?t brand))
            \<longrightarrow> fst (get_all_product_ids_for_category (\<lambda>tr. srv) brands_data category_id filters
                        sort_list default_parse tr)
                = Inr (\<Union>(name, brand) \<in> set brands_data. task_ids (?t brand))"
  proof
    assume a: "\<forall>(name, brand) \<in> set brands_data. returned (?t brand)"
    show "fst (get_all_product_ids_for_category (\<lambda>tr. srv) brands_data category_id filters
                        sort_list default_parse tr)
                = Inr (\<Union>(name, brand) \<in> set brands_data. task_ids (?t brand))"
    proof (cases "brands_data = []")
      case True
      then show ?thesis by (simp add: get_all_product_ids_for_category_def ret_def)
    next
      case False
      then show ?thesis
        using brands_loop_union [OF a, of "{}" tr]
        by (simp add: get_all_product_ids_for_category_def)
    qed
  qed
  from 1 2 show ?thesis by simp
qed


lemma sorted_net_eq: "sorted_net = (\<lambda>tr. sorted_listing)"
  by (rule ext, rule ext) (simp add: sorted_net_def)

lemma html_for_dell_net_eq: "html_for_dell_net = (\<lambda>tr. html_for_dell)"
  by (rule ext, rule ext) (simp add: html_for_dell_net_def)

theorem scheduler_merges_union_witness:
  "(0::int) < 10 \<and> mset lg_first = mset two_brands
   \<and> returned (brand_task sorted_listing dell 80089 None None False)
   \<and> returned (brand_task sorted_listing lg 80089 None None False)
   \<and> collect_product_ids_with_workers sorted_listing two_brands 80089 10 None None False
         lg_first
       = Inr {JInt 1, JInt 2, JInt 3, JInt 4}
   \<and> fst (get_all_product_ids_for_category sorted_net two_brands 80089 None None False [])
       = Inr {JInt 1, JInt 2, JInt 3, JInt 4}"
proof -
  have m: "mset lg_first = mset two_brands" by (simp add: lg_first_def two_brands_def)
  have r1: "returned (brand_task sorted_listing dell 80089 None None False)" by code_simp
  have r2: "returned (brand_task sorted_listing lg 80089 None None False)" by code_simp
  have r: "\<forall>(name, brand) \<in> set two_brands.
         returned (brand_task sorted_listing brand 80089 None None False)"
    using r1 r2 by (simp add: two_brands_def)
  have c: "collect_product_ids_with_workers sorted_listing two_brands 80089 10 None None False
         lg_first
       = Inr {JInt 1, JInt 2, JInt 3, JInt 4}"
    by code_simp
  have p: "(0::int) < 10" by simp
  from scheduler_merges_union [OF p m, of sorted_listing 80089 None None False "[]"] r c
  have "fst (get_all_product_ids_for_category sorted_net two_brands 80089 None None False [])
       = Inr {JInt 1, JInt 2, JInt 3, JInt 4}"
    by (simp add: sorted_net_eq)
  with m r1 r2 c show ?thesis by simp
qed

text \<open>
  The claim as the specification words it fails: when a task raises, the scheduler logs
  it and returns the identifiers of the other brands, while the variant without threads
  ends with the exception.
\<close>

theorem scheduler_differs_from_sequential_counterexample:
  "collect_product_ids_with_workers html_for_dell two_brands 80089 10 None None False lg_first
     = Inr {JInt 7}
   \<and> get_all_product_ids_for_category html_for_dell_net two_brands 80089 None None False []
     = (Inl TypeError, [Info Brand_started, Request (Catalog_url 1 ''dell'' None None 80089)])"
  by code_simp


end
